theory Spec2Isabelle
  imports Main
begin

section \<open>The operating system seen by cmk/utils/store.py\<close>

text \<open>
  The module talks to the file system, to the table of open descriptors and to the
  advisory locks of the kernel. These are one explicit state, \<open>world\<close>, passed through
  every function. A path is the pair that pathlib computes from it (\<open>path.parent\<close>,
  \<open>path.name\<close>); \<open>str(path)\<close> is the path itself. A descriptor stands for the open
  file description behind it, which is what \<open>flock\<close> locks. Directories are not part of
  the state: \<open>makedirs\<close> is a step that can fail and changes no file.
\<close>

datatype path = Path (parent: string) (name: string)

type_synonym bytes = string
type_synonym str = "nat list"
type_synonym inode = nat
type_synonym fd = nat
type_synonym tid = nat

datatype errno = ENOENT | EAGAIN | EBADF | EEXIST | EOTHER nat

datatype exn =
    OSError errno
  | MKTerminate
  | MKTimeout
  | MKGeneralException string "(path \<times> exn) option"
  | TypeError string
  | KeyError string
  | UnicodeDecodeError
  | UnicodeEncodeError
  | ValueError

datatype signal = SigTerminate | SigTimeout

text \<open>
  What the environment does to the next operating-system call: nothing, an error that
  the modelled state does not explain (\<open>Fail code n\<close>, raised as OSError with an errno
  \<open>EOTHER code\<close>; a write has then stored the first \<open>n\<close> bytes), or a signal whose handler
  raises MKTerminate or MKTimeout. The errors that the state explains (ENOENT for a
  missing file, EBADF for a closed descriptor, EAGAIN for a lock held elsewhere, EEXIST)
  come from the state alone. Signals arrive at operating-system calls only.
\<close>

datatype event = Proceed | Fail nat nat | Deliver signal

record fsys =
  names :: "path \<rightharpoonup> inode"
  data :: "inode \<Rightarrow> bytes"
  perms :: "inode \<Rightarrow> nat"

text \<open>
  The state: the file system now (\<open>fs\<close>: directory entries, file contents and
  permission bits by inode) and every state it has been in (\<open>hist\<close>); the next inode
  and the next descriptor to hand out; the open descriptors with their files; for
  each locked file the descriptor that holds its \<open>flock\<close>; the thread-local registry
  \<open>_locks.acquired_locks\<close> of every thread; the events to come; and the random suffixes
  \<open>tempfile\<close> will draw.
\<close>

record world =
  fs :: fsys
  hist :: "fsys list"
  next_ino :: inode
  opened :: "fd \<rightharpoonup> inode"
  next_fd :: fd
  flocks :: "inode \<rightharpoonup> fd"
  registry :: "tid \<Rightarrow> path \<rightharpoonup> fd"
  sched :: "event list"
  suffixes :: "string list"

text \<open>
  A call either does not return (\<open>None\<close>: it waits for a lock for ever), raises, or
  returns a value; in the last two cases it leaves a new state.
\<close>

type_synonym 'a prog = "world \<Rightarrow> ((exn + 'a) \<times> world) option"

definition ret :: "'a \<Rightarrow> 'a prog" where
  "ret x w = Some (Inr x, w)"

definition raise :: "exn \<Rightarrow> 'a prog" where
  "raise e w = Some (Inl e, w)"

definition bnd :: "'a prog \<Rightarrow> ('a \<Rightarrow> 'b prog) \<Rightarrow> 'b prog" where
  "bnd m f w =
     (case m w of
        None \<Rightarrow> None
      | Some (Inl e, w1) \<Rightarrow> Some (Inl e, w1)
      | Some (Inr x, w1) \<Rightarrow> f x w1)"

text \<open>\<open>try: m except ... as e: h e\<close>, the handler deciding by itself what it re-raises.\<close>

definition catch :: "'a prog \<Rightarrow> (exn \<Rightarrow> 'a prog) \<Rightarrow> 'a prog" where
  "catch m h w =
     (case m w of
        None \<Rightarrow> None
      | Some (Inl e, w1) \<Rightarrow> h e w1
      | Some (Inr x, w1) \<Rightarrow> Some (Inr x, w1))"

text \<open>
  \<open>try: m finally: c\<close>. The cleanup runs on every exit of \<open>m\<close>; an exception of the
  cleanup replaces the outcome of \<open>m\<close>.
\<close>

definition fin :: "'a prog \<Rightarrow> unit prog \<Rightarrow> 'a prog" where
  "fin m c w =
     (case m w of
        None \<Rightarrow> None
      | Some (r, w1) \<Rightarrow>
          (case c w1 of
             None \<Rightarrow> None
           | Some (Inl e, w2) \<Rightarrow> Some (Inl e, w2)
           | Some (Inr u, w2) \<Rightarrow> Some (r, w2)))"

definition sig_exn :: "signal \<Rightarrow> exn" where
  "sig_exn s = (case s of SigTerminate \<Rightarrow> MKTerminate | SigTimeout \<Rightarrow> MKTimeout)"

text \<open>Every operating-system call first takes the next event of the schedule.\<close>

definition syscall :: "'a prog \<Rightarrow> 'a prog" where
  "syscall act w =
     (case sched w of
        [] \<Rightarrow> act w
      | Proceed # es \<Rightarrow> act (w\<lparr>sched := es\<rparr>)
      | Fail code n # es \<Rightarrow> Some (Inl (OSError (EOTHER code)), w\<lparr>sched := es\<rparr>)
      | Deliver s # es \<Rightarrow> Some (Inl (sig_exn s), w\<lparr>sched := es\<rparr>))"

text \<open>Every change of the file system is recorded in \<open>hist\<close>, oldest state first.\<close>

definition set_fs :: "fsys \<Rightarrow> world \<Rightarrow> world" where
  "set_fs s w = w\<lparr>fs := s, hist := hist w @ [s]\<rparr>"

definition create_file :: "path \<Rightarrow> nat \<Rightarrow> world \<Rightarrow> world" where
  "create_file p mode w =
     set_fs ((fs w)\<lparr>names := (names (fs w))(p \<mapsto> next_ino w),
                    data := (data (fs w))(next_ino w := []),
                    perms := (perms (fs w))(next_ino w := mode)\<rparr>)
            (w\<lparr>next_ino := Suc (next_ino w)\<rparr>)"

text \<open>What a reader finds at a path: nothing, or the whole content of the file named.\<close>

definition visible :: "fsys \<Rightarrow> path \<Rightarrow> bytes option" where
  "visible s p = (case names s p of None \<Rightarrow> None | Some i \<Rightarrow> Some (data s i))"

subsection \<open>The calls the module makes\<close>

text \<open>\<open>makedirs(path.parent, mode=0o770)\<close>.\<close>

definition makedirs :: "string \<Rightarrow> nat \<Rightarrow> unit prog" where
  "makedirs d mode = syscall (ret ())"

text \<open>\<open>os.open(str(path), os.O_RDONLY | os.O_CREAT, 0o660)\<close>: creates an empty file where
  there is none.\<close>

definition os_open :: "path \<Rightarrow> fd prog" where
  "os_open p = syscall (\<lambda>w.
     let w1 = (case names (fs w) p of None \<Rightarrow> create_file p 432 w | Some i \<Rightarrow> w) in
     (case names (fs w1) p of
        None \<Rightarrow> Some (Inl (OSError ENOENT), w1)
      | Some i \<Rightarrow>
          Some (Inr (next_fd w1),
                w1\<lparr>opened := (opened w1)(next_fd w1 \<mapsto> i), next_fd := Suc (next_fd w1)\<rparr>)))"

text \<open>
  \<open>fcntl.flock(fd, LOCK_EX)\<close>, with \<open>LOCK_NB\<close> when not blocking. The lock belongs to the
  open file description: a second description of the same file waits, or gets EAGAIN.
\<close>

definition fcntl_flock :: "fd \<Rightarrow> bool \<Rightarrow> unit prog" where
  "fcntl_flock d blocking = syscall (\<lambda>w.
     (case opened w d of
        None \<Rightarrow> Some (Inl (OSError EBADF), w)
      | Some i \<Rightarrow>
          if flocks w i = None \<or> flocks w i = Some d
          then Some (Inr (), w\<lparr>flocks := (flocks w)(i \<mapsto> d)\<rparr>)
          else if blocking then None
          else Some (Inl (OSError EAGAIN), w)))"

text \<open>\<open>os.close(fd)\<close>: closing the description drops the lock it holds.\<close>

definition os_close :: "fd \<Rightarrow> unit prog" where
  "os_close d = syscall (\<lambda>w.
     (case opened w d of
        None \<Rightarrow> Some (Inl (OSError EBADF), w)
      | Some i \<Rightarrow>
          Some (Inr (), w\<lparr>opened := (opened w)(d := None),
                          flocks := (\<lambda>j. if flocks w j = Some d then None else flocks w j)\<rparr>)))"

text \<open>\<open>os.path.sameopenfile(fd, fd_new)\<close> compares the files behind two descriptors.\<close>

definition sameopenfile :: "fd \<Rightarrow> fd \<Rightarrow> bool prog" where
  "sameopenfile d1 d2 = syscall (\<lambda>w.
     (case (opened w d1, opened w d2) of
        (Some i, Some j) \<Rightarrow> Some (Inr (i = j), w)
      | _ \<Rightarrow> Some (Inl (OSError EBADF), w)))"

text \<open>
  \<open>tempfile.NamedTemporaryFile("wb", dir=..., prefix=..., delete=False)\<close>: the first
  candidate name that is free gets a new empty file of mode 0o600; FileExistsError when
  the candidates run out. The file object is its name and its file.
\<close>

record tmpfile =
  tmp_name :: path
  tmp_ino :: inode

fun fresh_name :: "(path \<rightharpoonup> inode) \<Rightarrow> string \<Rightarrow> string \<Rightarrow> string list
    \<Rightarrow> (path \<times> string list) option" where
  "fresh_name ns d pre [] = None"
| "fresh_name ns d pre (s # ss) =
     (if ns (Path d (pre @ s)) = None then Some (Path d (pre @ s), ss)
      else fresh_name ns d pre ss)"

definition NamedTemporaryFile :: "string \<Rightarrow> string \<Rightarrow> tmpfile prog" where
  "NamedTemporaryFile d pre = syscall (\<lambda>w.
     (case fresh_name (names (fs w)) d pre (suffixes w) of
        None \<Rightarrow> Some (Inl (OSError EEXIST), w\<lparr>suffixes := []\<rparr>)
      | Some (q, ss) \<Rightarrow>
          Some (Inr \<lparr>tmp_name = q, tmp_ino = next_ino w\<rparr>,
                create_file q 384 (w\<lparr>suffixes := ss\<rparr>))))"

text \<open>\<open>os.chmod(tmp_path, mode)\<close>.\<close>

definition os_chmod :: "path \<Rightarrow> nat \<Rightarrow> unit prog" where
  "os_chmod q mode = syscall (\<lambda>w.
     (case names (fs w) q of
        None \<Rightarrow> Some (Inl (OSError ENOENT), w)
      | Some i \<Rightarrow> Some (Inr (), set_fs ((fs w)\<lparr>perms := (perms (fs w))(i := mode)\<rparr>) w)))"

text \<open>
  \<open>tmp.write(content)\<close> on the new, empty file. A failing write has stored a prefix
  of the content. (The buffer of the file object is not modelled: what is written is in
  the file at once. The descriptor of the file object takes no part in locking and is
  not entered in \<open>opened\<close>.)
\<close>

definition tmp_write :: "tmpfile \<Rightarrow> bytes \<Rightarrow> unit prog" where
  "tmp_write f content w =
     (case sched w of
        Fail code n # es \<Rightarrow>
          Some (Inl (OSError (EOTHER code)),
                set_fs ((fs w)\<lparr>data := (data (fs w))(tmp_ino f := take n content)\<rparr>)
                       (w\<lparr>sched := es\<rparr>))
      | _ \<Rightarrow>
          syscall (\<lambda>w1.
            Some (Inr (), set_fs ((fs w1)\<lparr>data := (data (fs w1))(tmp_ino f := content)\<rparr>) w1)) w)"

text \<open>Leaving the \<open>with\<close> block closes the file object.\<close>

definition tmp_close :: "tmpfile \<Rightarrow> unit prog" where
  "tmp_close f = syscall (ret ())"

text \<open>\<open>os.rename(tmp_path, str(path))\<close>: one step that retargets the name.\<close>

definition os_rename :: "path \<Rightarrow> path \<Rightarrow> unit prog" where
  "os_rename src dst = syscall (\<lambda>w.
     (case names (fs w) src of
        None \<Rightarrow> Some (Inl (OSError ENOENT), w)
      | Some i \<Rightarrow>
          Some (Inr (), set_fs ((fs w)\<lparr>names := ((names (fs w))(src := None))(dst \<mapsto> i)\<rparr>) w)))"

text \<open>\<open>os.unlink(tmp_path)\<close>.\<close>

definition os_unlink :: "path \<Rightarrow> unit prog" where
  "os_unlink q = syscall (\<lambda>w.
     (case names (fs w) q of
        None \<Rightarrow> Some (Inl (OSError ENOENT), w)
      | Some i \<Rightarrow> Some (Inr (), set_fs ((fs w)\<lparr>names := (names (fs w))(q := None)\<rparr>) w)))"

text \<open>\<open>path.read_bytes()\<close>, and \<open>path.open(mode="rb")\<close> followed by \<open>f.read()\<close>.\<close>

definition read_bytes :: "path \<Rightarrow> bytes prog" where
  "read_bytes p = syscall (\<lambda>w.
     (case names (fs w) p of
        None \<Rightarrow> Some (Inl (OSError ENOENT), w)
      | Some i \<Rightarrow> Some (Inr (data (fs w) i), w)))"

section \<open>File locking\<close>

text \<open>
  \<open>_locks\<close> is thread-local: \<open>registry w t\<close> is the dictionary \<open>acquired_locks\<close> of
  thread \<open>t\<close>, from \<open>str(path)\<close> to the descriptor. A dictionary that was never created
  is the empty one. Every function takes the calling thread as its first argument.
  A name that starts with an underscore in the source starts with \<open>priv_\<close> here.
  Paths are \<open>Path\<close> objects, which is what \<open>aquire_lock\<close> and \<open>release_lock\<close> make of
  their argument before anything else; the key \<open>str(path)\<close> of the registry is the path.
  \<open>have_lock\<close> converts nothing: given a string that \<open>Path\<close> would change (a doubled
  slash, say) it looks up the string as it is. Such a call is not modelled; the two
  functions above call \<open>have_lock\<close> with a \<open>Path\<close>.
\<close>

definition priv_set_lock :: "tid \<Rightarrow> path \<Rightarrow> fd \<Rightarrow> unit prog" where
  "priv_set_lock t p d w = Some (Inr (), w\<lparr>registry := (registry w)(t := (registry w t)(p \<mapsto> d))\<rparr>)"

definition priv_get_lock :: "tid \<Rightarrow> path \<Rightarrow> world \<Rightarrow> fd option" where
  "priv_get_lock t p w = registry w t p"

definition priv_del_lock :: "tid \<Rightarrow> path \<Rightarrow> unit prog" where
  "priv_del_lock t p w = Some (Inr (), w\<lparr>registry := (registry w)(t := (registry w t)(p := None))\<rparr>)"

definition priv_has_lock :: "tid \<Rightarrow> path \<Rightarrow> world \<Rightarrow> bool" where
  "priv_has_lock t p w = (registry w t p \<noteq> None)"

definition have_lock :: "tid \<Rightarrow> path \<Rightarrow> world \<Rightarrow> bool" where
  "have_lock t p w = priv_has_lock t p w"

text \<open>
  The \<open>while True\<close> of \<open>aquire_lock\<close>: lock the descriptor, open the path again, and
  go round once more when the path names another file by now.
\<close>

definition flock_or_close :: "fd \<Rightarrow> bool \<Rightarrow> unit prog" where
  "flock_or_close d blocking =
     catch (fcntl_flock d blocking)
       (\<lambda>e. case e of OSError x \<Rightarrow> bnd (os_close d) (\<lambda>u. raise e) | _ \<Rightarrow> raise e)"

partial_function (option) aquire_loop :: "path \<Rightarrow> bool \<Rightarrow> fd \<Rightarrow> world \<Rightarrow> ((exn + fd) \<times> world) option" where
  "aquire_loop p blocking d w =
     (case flock_or_close d blocking w of
        None \<Rightarrow> None
      | Some (Inl e, w1) \<Rightarrow> Some (Inl e, w1)
      | Some (Inr u, w1) \<Rightarrow>
          (case os_open p w1 of
             None \<Rightarrow> None
           | Some (Inl e, w2) \<Rightarrow> Some (Inl e, w2)
           | Some (Inr d_new, w2) \<Rightarrow>
               (case sameopenfile d d_new w2 of
                  None \<Rightarrow> None
                | Some (Inl e, w3) \<Rightarrow> Some (Inl e, w3)
                | Some (Inr same, w3) \<Rightarrow>
                    if same then bnd (os_close d_new) (\<lambda>u. ret d) w3
                    else (case os_close d w3 of
                            None \<Rightarrow> None
                          | Some (Inl e, w4) \<Rightarrow> Some (Inl e, w4)
                          | Some (Inr u, w4) \<Rightarrow> aquire_loop p blocking d_new w4))))"

definition aquire_lock :: "tid \<Rightarrow> path \<Rightarrow> bool \<Rightarrow> unit prog" where
  "aquire_lock t p blocking w =
     (if have_lock t p w then ret () w
      else bnd (makedirs (parent p) 504) (\<lambda>u.
           bnd (os_open p) (\<lambda>d.
           bnd (aquire_loop p blocking d) (\<lambda>d'.
           priv_set_lock t p d'))) w)"

definition try_aquire_lock :: "tid \<Rightarrow> path \<Rightarrow> bool prog" where
  "try_aquire_lock t p =
     catch (bnd (aquire_lock t p False) (\<lambda>u. ret True))
       (\<lambda>e. case e of
              OSError x \<Rightarrow> if x \<noteq> EAGAIN then raise e else ret False
            | _ \<Rightarrow> raise e)"

definition release_lock :: "tid \<Rightarrow> path \<Rightarrow> unit prog" where
  "release_lock t p w =
     (if \<not> have_lock t p w then ret () w
      else (case priv_get_lock t p w of
              None \<Rightarrow> ret () w
            | Some d \<Rightarrow>
                bnd (catch (os_close d)
                       (\<lambda>e. case e of
                              OSError x \<Rightarrow> if x \<noteq> EBADF then raise e else ret ()
                            | _ \<Rightarrow> raise e))
                    (\<lambda>u. priv_del_lock t p) w))"

section \<open>Loading and saving\<close>

text \<open>
  The module leaves rendering, parsing, the UTF-8 codec and the execution of a
  configuration script to Python: \<open>repr\<close>, \<open>pprint.pformat\<close>, \<open>ast.literal_eval\<close>,
  \<open>str.encode\<close>, \<open>bytes.decode\<close> and \<open>exec\<close>. They are parameters here, pure functions
  that may raise. \<open>exec\<close> changes the dictionary it is given in place, also when it
  raises: \<open>py_exec\<close> gives its outcome together with the dictionary as it is then.
\<close>

record 'v pylib =
  py_repr :: "'v \<Rightarrow> exn + str"
  py_pformat :: "'v \<Rightarrow> exn + str"
  py_literal_eval :: "str \<Rightarrow> exn + 'v"
  utf8_encode :: "str \<Rightarrow> exn + bytes"
  utf8_decode :: "bytes \<Rightarrow> exn + str"
  py_exec :: "bytes \<Rightarrow> (string \<rightharpoonup> 'v) \<Rightarrow> (exn + unit) \<times> (string \<rightharpoonup> 'v)"

text \<open>An argument whose Python type the callee checks.\<close>

datatype pyobj = is_str: PyStr str | is_bytes: PyBytes bytes | PyOther

definition lift :: "exn + 'a \<Rightarrow> 'a prog" where
  "lift r w = Some (r, w)"

definition when_lock :: "bool \<Rightarrow> unit prog \<Rightarrow> unit prog" where
  "when_lock lock m = (if lock then m else ret ())"

definition priv_load_bytes_from_file :: "tid \<Rightarrow> path \<Rightarrow> bool \<Rightarrow> bytes prog" where
  "priv_load_bytes_from_file t p lock =
     bnd (when_lock lock (aquire_lock t p True)) (\<lambda>u.
       catch
         (catch (read_bytes p)
            (\<lambda>e. case e of OSError ENOENT \<Rightarrow> ret [] | _ \<Rightarrow> raise e))
         (\<lambda>e. if e = MKTerminate \<or> e = MKTimeout
              then bnd (when_lock lock (release_lock t p)) (\<lambda>u. raise e)
              else bnd (when_lock lock (release_lock t p))
                     (\<lambda>u. raise (MKGeneralException ''Cannot read file'' (Some (p, e))))))"

definition load_object_from_file :: "'v pylib \<Rightarrow> tid \<Rightarrow> path \<Rightarrow> 'v \<Rightarrow> bool \<Rightarrow> 'v prog" where
  "load_object_from_file L t p dflt lock =
     bnd (priv_load_bytes_from_file t p lock) (\<lambda>b.
     bnd (lift (utf8_decode L b)) (\<lambda>content.
       if content \<noteq> [] then lift (py_literal_eval L content) else ret dflt))"

definition load_text_from_file :: "'v pylib \<Rightarrow> tid \<Rightarrow> path \<Rightarrow> str \<Rightarrow> bool \<Rightarrow> str prog" where
  "load_text_from_file L t p dflt lock =
     bnd (priv_load_bytes_from_file t p lock) (\<lambda>b.
     bnd (lift (utf8_decode L b)) (\<lambda>s.
       ret (if s \<noteq> [] then s else dflt)))"

definition load_bytes_from_file :: "tid \<Rightarrow> path \<Rightarrow> bytes \<Rightarrow> bool \<Rightarrow> bytes prog" where
  "load_bytes_from_file t p dflt lock =
     bnd (priv_load_bytes_from_file t p lock) (\<lambda>b.
       ret (if b \<noteq> [] then b else dflt))"

text \<open>
  The \<open>with\<close> block of \<open>load_mk_file\<close>: the file is read and executed on the dictionary
  \<open>default\<close>. The block gives its outcome and the dictionary as it is when the block is
  left, which is what \<open>return default\<close> returns.
\<close>

definition exec_file :: "'v pylib \<Rightarrow> path \<Rightarrow> (string \<rightharpoonup> 'v)
    \<Rightarrow> ((exn + unit) \<times> (string \<rightharpoonup> 'v)) prog" where
  "exec_file L p dflt w =
     (case read_bytes p w of
        None \<Rightarrow> None
      | Some (Inl e, w1) \<Rightarrow> Some (Inr (Inl e, dflt), w1)
      | Some (Inr src, w1) \<Rightarrow> Some (Inr (py_exec L src dflt), w1))"

definition load_mk_file :: "'v pylib \<Rightarrow> tid \<Rightarrow> path \<Rightarrow> (string \<rightharpoonup> 'v) option \<Rightarrow> bool
    \<Rightarrow> (string \<rightharpoonup> 'v) prog" where
  "load_mk_file L t p dflt0 lock =
     (case dflt0 of
        None \<Rightarrow> raise (MKGeneralException ''You need to provide a config dictionary'' None)
      | Some dflt \<Rightarrow>
          bnd (when_lock lock (aquire_lock t p True)) (\<lambda>u.
            catch
              (bnd (exec_file L p dflt) (\<lambda>(r, d).
                 case r of
                   Inr u \<Rightarrow> ret d
                 | Inl e \<Rightarrow>
                     (case e of
                        OSError x \<Rightarrow> if x \<noteq> ENOENT then raise e else ret d
                      | _ \<Rightarrow> raise e)))
              (\<lambda>e. if e = MKTerminate \<or> e = MKTimeout then raise e
                   else raise (MKGeneralException ''Cannot read configuration file''
                                 (Some (p, e))))))"

definition load_from_mk_file :: "'v pylib \<Rightarrow> tid \<Rightarrow> path \<Rightarrow> string \<Rightarrow> 'v \<Rightarrow> bool \<Rightarrow> 'v prog" where
  "load_from_mk_file L t p key dflt lock =
     bnd (load_mk_file L t p (Some [key \<mapsto> dflt]) False) (\<lambda>env.
       case env key of None \<Rightarrow> raise (KeyError key) | Some v \<Rightarrow> ret v)"

text \<open>
  The \<open>with\<close> block on the temporary file: \<open>os.chmod\<close>, \<open>tmp.write\<close>, and the file
  object closed however the block is left.
\<close>

definition with_tmp :: "tmpfile \<Rightarrow> bytes \<Rightarrow> nat \<Rightarrow> unit prog" where
  "with_tmp tmp content mode =
     fin (bnd (os_chmod (tmp_name tmp) mode) (\<lambda>u. tmp_write tmp content)) (tmp_close tmp)"

text \<open>
  The \<open>try\<close> block of \<open>_save_data_to_file\<close>, returning with its outcome the value the
  local variable \<open>tmp_path\<close> has when the block is left, which the handler reads.
\<close>

definition save_try :: "tid \<Rightarrow> path \<Rightarrow> bytes \<Rightarrow> nat \<Rightarrow> world
    \<Rightarrow> ((exn + unit) \<times> path option \<times> world) option" where
  "save_try t p content mode w =
     (case aquire_lock t p True w of
        None \<Rightarrow> None
      | Some (Inl e, w1) \<Rightarrow> Some (Inl e, None, w1)
      | Some (Inr u, w1) \<Rightarrow>
          (case NamedTemporaryFile (parent p) (CHR ''.'' # name p @ ''.new'') w1 of
             None \<Rightarrow> None
           | Some (Inl e, w2) \<Rightarrow> Some (Inl e, None, w2)
           | Some (Inr tmp, w2) \<Rightarrow>
               (case bnd (with_tmp tmp content mode) (\<lambda>u. os_rename (tmp_name tmp) p) w2 of
                  None \<Rightarrow> None
                | Some (r, w3) \<Rightarrow> Some (r, Some (tmp_name tmp), w3))))"

definition save_except :: "path \<Rightarrow> path option \<Rightarrow> exn \<Rightarrow> unit prog" where
  "save_except p tmp_path e =
     (if e = MKTerminate \<or> e = MKTimeout then raise e
      else bnd (catch (case tmp_path of None \<Rightarrow> ret () | Some q \<Rightarrow> os_unlink q)
                  (\<lambda>e2. case e2 of
                          OSError x \<Rightarrow> if x \<noteq> ENOENT then raise e2 else ret ()
                        | _ \<Rightarrow> raise e2))
               (\<lambda>u. raise (MKGeneralException ''Cannot write configuration file''
                             (Some (p, e)))))"

text \<open>The \<open>try\<close> block with its \<open>except\<close> clauses, and then the \<open>finally\<close> clause.\<close>

definition save_attempt :: "tid \<Rightarrow> path \<Rightarrow> bytes \<Rightarrow> nat \<Rightarrow> unit prog" where
  "save_attempt t p content mode w =
     (case save_try t p content mode w of
        None \<Rightarrow> None
      | Some (Inl e, tmp_path, w1) \<Rightarrow> save_except p tmp_path e w1
      | Some (Inr u, tmp_path, w1) \<Rightarrow> Some (Inr u, w1))"

definition priv_save_data_to_file :: "tid \<Rightarrow> path \<Rightarrow> bytes \<Rightarrow> nat \<Rightarrow> unit prog" where
  "priv_save_data_to_file t p content mode =
     fin (save_attempt t p content mode) (release_lock t p)"

definition ensure_binary :: "'v pylib \<Rightarrow> pyobj \<Rightarrow> exn + bytes" where
  "ensure_binary L c =
     (case c of
        PyBytes b \<Rightarrow> Inr b
      | PyStr s \<Rightarrow> utf8_encode L s
      | PyOther \<Rightarrow> Inl (TypeError ''not expecting type''))"

definition save_file :: "'v pylib \<Rightarrow> tid \<Rightarrow> path \<Rightarrow> pyobj \<Rightarrow> nat \<Rightarrow> unit prog" where
  "save_file L t p content mode =
     bnd (lift (ensure_binary L content)) (\<lambda>b. priv_save_data_to_file t p b mode)"

definition save_text_to_file :: "'v pylib \<Rightarrow> tid \<Rightarrow> path \<Rightarrow> pyobj \<Rightarrow> nat \<Rightarrow> unit prog" where
  "save_text_to_file L t p content mode =
     (case content of
        PyStr s \<Rightarrow> bnd (lift (utf8_encode L s)) (\<lambda>b. priv_save_data_to_file t p b mode)
      | _ \<Rightarrow> raise (TypeError ''content argument must be Text, not bytes''))"

definition save_bytes_to_file :: "tid \<Rightarrow> path \<Rightarrow> pyobj \<Rightarrow> nat \<Rightarrow> unit prog" where
  "save_bytes_to_file t p content mode =
     (case content of
        PyBytes b \<Rightarrow> priv_save_data_to_file t p b mode
      | _ \<Rightarrow> raise (TypeError ''content argument must be bytes, not Text''))"

text \<open>\<open>formatted_data\<close> of \<open>save_object_to_file\<close>.\<close>

definition format_data :: "'v pylib \<Rightarrow> 'v \<Rightarrow> bool \<Rightarrow> exn + str" where
  "format_data L v pretty =
     (if pretty
      then (case py_pformat L v of
              Inl UnicodeDecodeError \<Rightarrow> py_repr L v
            | r \<Rightarrow> r)
      else py_repr L v)"

definition save_object_to_file :: "'v pylib \<Rightarrow> tid \<Rightarrow> path \<Rightarrow> 'v \<Rightarrow> bool \<Rightarrow> unit prog" where
  "save_object_to_file L t p v pretty =
     bnd (lift (format_data L v pretty))
         (\<lambda>formatted_data. save_file L t p (PyStr (formatted_data @ [10])) 432)"

section \<open>Notions used to state the properties\<close>

text \<open>
  One pass of the loop of \<open>aquire_lock\<close>, written out. The path was opened a moment
  before, so the second descriptor is on the same file and the loop ends there
  (lemma \<open>aquire_lock_flat\<close>).
\<close>

definition aquire_once :: "tid \<Rightarrow> path \<Rightarrow> bool \<Rightarrow> unit prog" where
  "aquire_once t p blocking =
     bnd (makedirs (parent p) 504) (\<lambda>u.
     bnd (os_open p) (\<lambda>d.
     bnd (flock_or_close d blocking) (\<lambda>u.
     bnd (os_open p) (\<lambda>d_new.
     bnd (sameopenfile d d_new) (\<lambda>same.
     bnd (os_close d_new) (\<lambda>u.
     priv_set_lock t p d))))))"

text \<open>The part of it that talks to the operating system, returning the descriptor.\<close>

definition lock_fd :: "path \<Rightarrow> bool \<Rightarrow> fd prog" where
  "lock_fd p blocking =
     bnd (makedirs (parent p) 504) (\<lambda>u.
     bnd (os_open p) (\<lambda>d.
     bnd (flock_or_close d blocking) (\<lambda>u.
     bnd (os_open p) (\<lambda>d_new.
     bnd (sameopenfile d d_new) (\<lambda>same.
     bnd (os_close d_new) (\<lambda>u.
     ret d))))))"

text \<open>Acquiring \<open>n\<close> times in a row.\<close>

fun aquire_times :: "nat \<Rightarrow> tid \<Rightarrow> path \<Rightarrow> bool \<Rightarrow> unit prog" where
  "aquire_times 0 t p blocking = ret ()"
| "aquire_times (Suc n) t p blocking =
     bnd (aquire_lock t p blocking) (\<lambda>u. aquire_times n t p blocking)"

text \<open>Every run of \<open>m\<close> that ends relates the state before to the state after.\<close>

definition keeps :: "(world \<Rightarrow> world \<Rightarrow> bool) \<Rightarrow> 'a prog \<Rightarrow> bool" where
  "keeps R m = (\<forall>w r w'. m w = Some (r, w') \<longrightarrow> R w w')"

text \<open>The next operating-system call is not disturbed.\<close>

definition undisturbed :: "world \<Rightarrow> bool" where
  "undisturbed w = (case sched w of [] \<Rightarrow> True | e # es \<Rightarrow> e = Proceed)"

text \<open>The registries are as they were.\<close>

definition reg_same :: "world \<Rightarrow> world \<Rightarrow> bool" where
  "reg_same w w' = (registry w' = registry w)"

definition raises_only :: "(exn \<Rightarrow> bool) \<Rightarrow> 'a prog \<Rightarrow> bool" where
  "raises_only S m = (\<forall>w e w'. m w = Some (Inl e, w') \<longrightarrow> S e)"

definition os_or_signal :: "exn \<Rightarrow> bool" where
  "os_or_signal e = (case e of OSError x \<Rightarrow> True | MKTerminate \<Rightarrow> True | MKTimeout \<Rightarrow> True
                     | _ \<Rightarrow> False)"

text \<open>
  \<open>logged P w w'\<close>: from \<open>w\<close> to \<open>w'\<close> the file system went through the recorded states
  \<open>xs\<close>, every one of them a \<open>P\<close> state, and is now in the last of them.
  \<open>under I R\<close>: from a state with \<open>I\<close>, the run ends in a state with \<open>I\<close> and is an
  \<open>R\<close> run.
\<close>

definition logged :: "(fsys \<Rightarrow> bool) \<Rightarrow> world \<Rightarrow> world \<Rightarrow> bool" where
  "logged P w w' =
     (\<exists>xs. hist w' = hist w @ xs \<and> fs w' = last (fs w # xs) \<and> list_all P xs)"

definition under :: "(world \<Rightarrow> bool) \<Rightarrow> (world \<Rightarrow> world \<Rightarrow> bool) \<Rightarrow> world \<Rightarrow> world \<Rightarrow> bool" where
  "under I R w w' = (I w \<longrightarrow> I w' \<and> R w w')"

text \<open>No name outside \<open>X\<close> was bound, unbound or rebound.\<close>

definition names_kept :: "path set \<Rightarrow> world \<Rightarrow> world \<Rightarrow> bool" where
  "names_kept X w w' = (\<forall>q. q \<notin> X \<longrightarrow> names (fs w') q = names (fs w) q)"

text \<open>What is at \<open>p\<close> before the rename: the prior state, or the empty file of the lock.\<close>

definition not_yet :: "path \<Rightarrow> bytes option \<Rightarrow> fsys \<Rightarrow> bool" where
  "not_yet p prior s = (visible s p = prior \<or> (prior = None \<and> visible s p = Some []))"

text \<open>
  What the handlers of \<open>_load_bytes_from_file\<close> raise for an exception \<open>e\<close> of the read:
  MKTerminate and MKTimeout as they are, anything else as MKGeneralException.
\<close>

definition read_failure :: "path \<Rightarrow> exn \<Rightarrow> exn" where
  "read_failure p e =
     (if e = MKTerminate \<or> e = MKTimeout then e
      else MKGeneralException ''Cannot read file'' (Some (p, e)))"

text \<open>A name for the temporary file is to be had.\<close>

definition tmp_available :: "path \<Rightarrow> world \<Rightarrow> bool" where
  "tmp_available p w =
     (fresh_name (names (fs w)) (parent p) (CHR ''.'' # name p @ ''.new'') (suffixes w) \<noteq> None)"

text \<open>The files, their record and the inode counter are as they were.\<close>

definition quiet :: "world \<Rightarrow> world \<Rightarrow> bool" where
  "quiet w w' = (fs w' = fs w \<and> hist w' = hist w \<and> next_ino w' = next_ino w)"

text \<open>The inode counter lies beyond the file at \<open>p\<close>.\<close>

definition fresh_for :: "path \<Rightarrow> world \<Rightarrow> bool" where
  "fresh_for p w = (case names (fs w) p of None \<Rightarrow> True | Some i \<Rightarrow> i < next_ino w)"

text \<open>What a reader finds at \<open>p\<close> is one of the things \<open>V\<close> allows.\<close>

definition shown :: "path \<Rightarrow> (bytes option \<Rightarrow> bool) \<Rightarrow> fsys \<Rightarrow> bool" where
  "shown p V s = V (visible s p)"

text \<open>
  The states of a save before the rename. While the lock is taken (\<open>unrenamed\<close>): what
  is at \<open>p\<close> is not the new content yet. While the temporary file is filled (\<open>filling\<close>):
  what is at \<open>p\<close> is as \<open>V\<close> allows, and the temporary file has its own name and its
  own inode.
\<close>

definition unrenamed :: "path \<Rightarrow> bytes option \<Rightarrow> world \<Rightarrow> bool" where
  "unrenamed p prior w = (not_yet p prior (fs w) \<and> fresh_for p w)"

definition filling :: "path \<Rightarrow> (bytes option \<Rightarrow> bool) \<Rightarrow> tmpfile \<Rightarrow> world \<Rightarrow> bool" where
  "filling p V tmp w =
     (shown p V (fs w) \<and> names (fs w) p \<noteq> Some (tmp_ino tmp)
      \<and> names (fs w) (tmp_name tmp) = Some (tmp_ino tmp))"

text \<open>
  Thread \<open>t\<close> holds the lock of \<open>p\<close> in the operating system: its registered descriptor
  is open on the file that \<open>p\<close> names and is the holder of that file's lock.
\<close>

definition lock_held :: "tid \<Rightarrow> path \<Rightarrow> world \<Rightarrow> bool" where
  "lock_held t p w =
     (case registry w t p of
        None \<Rightarrow> False
      | Some d \<Rightarrow>
          (case opened w d of
             None \<Rightarrow> False
           | Some i \<Rightarrow> names (fs w) p = Some i \<and> flocks w i = Some d))"

text \<open>Nobody holds the lock of the file at \<open>p\<close>, or of the file that would be created.\<close>

definition free_to_lock :: "path \<Rightarrow> world \<Rightarrow> bool" where
  "free_to_lock p w =
     (case names (fs w) p of
        None \<Rightarrow> flocks w (next_ino w) = None
      | Some i \<Rightarrow> flocks w i = None)"

subsection \<open>A concrete Python side and concrete states\<close>

text \<open>
  Values are natural numbers, rendered in decimal and read back; text is ASCII; the
  configuration script does nothing. The state has one file, \<open>/omd/etc/x.mk\<close>, holding
  \<open>7\<close>, no open descriptor, no lock and no pending event.
\<close>

fun render_nat :: "nat \<Rightarrow> str" where
  "render_nat n = (if n < 10 then [48 + n] else render_nat (n div 10) @ [48 + n mod 10])"

fun parse_digits :: "nat \<Rightarrow> str \<Rightarrow> nat option" where
  "parse_digits acc [] = Some acc"
| "parse_digits acc (c # cs) =
     (if 48 \<le> c \<and> c < 58 then parse_digits (acc * 10 + (c - 48)) cs else None)"

definition demo_literal_eval :: "str \<Rightarrow> exn + nat" where
  "demo_literal_eval s =
     (let body = takeWhile (\<lambda>c. c \<noteq> 10) s in
      if body = [] then Inl ValueError
      else (case parse_digits 0 body of None \<Rightarrow> Inl ValueError | Some n \<Rightarrow> Inr n))"

definition ascii_encode :: "str \<Rightarrow> exn + bytes" where
  "ascii_encode s =
     (if list_all (\<lambda>c. c < 128) s then Inr (map char_of s) else Inl UnicodeEncodeError)"

definition ascii_decode :: "bytes \<Rightarrow> exn + str" where
  "ascii_decode b =
     (if list_all (\<lambda>c. (of_char c :: nat) < 128) b then Inr (map of_char b)
      else Inl UnicodeDecodeError)"

definition demo_lib :: "nat pylib" where
  "demo_lib = \<lparr>py_repr = (\<lambda>v. Inr (render_nat v)), py_pformat = (\<lambda>v. Inr (render_nat v)),
               py_literal_eval = demo_literal_eval, utf8_encode = ascii_encode,
               utf8_decode = ascii_decode, py_exec = (\<lambda>src env. (Inr (), env))\<rparr>"

text \<open>
  A second Python side, with floating-point scalars next to the integers: \<open>1e999\<close> is
  the float infinity, which \<open>repr\<close> and \<open>pprint.pformat\<close> render as \<open>inf\<close>, a text that
  \<open>ast.literal_eval\<close> rejects with ValueError.
\<close>

datatype pyscalar = PyInt nat | PyFloatInf

definition scalar_repr :: "pyscalar \<Rightarrow> str" where
  "scalar_repr v = (case v of PyInt n \<Rightarrow> render_nat n | PyFloatInf \<Rightarrow> [105, 110, 102])"

definition scalar_literal_eval :: "str \<Rightarrow> exn + pyscalar" where
  "scalar_literal_eval s =
     (case demo_literal_eval s of Inl e \<Rightarrow> Inl e | Inr n \<Rightarrow> Inr (PyInt n))"

definition float_lib :: "pyscalar pylib" where
  "float_lib = \<lparr>py_repr = (\<lambda>v. Inr (scalar_repr v)), py_pformat = (\<lambda>v. Inr (scalar_repr v)),
                py_literal_eval = scalar_literal_eval, utf8_encode = ascii_encode,
                utf8_decode = ascii_decode, py_exec = (\<lambda>src env. (Inr (), env))\<rparr>"

definition demo_path :: path where
  "demo_path = Path ''/omd/etc'' ''x.mk''"

definition demo_world :: world where
  "demo_world =
     \<lparr>fs = \<lparr>names = [demo_path \<mapsto> 0], data = (\<lambda>i. [])(0 := ''7''), perms = (\<lambda>i. 0)(0 := 432)\<rparr>,
      hist = [], next_ino = 1, opened = Map.empty, next_fd = 3, flocks = Map.empty,
      registry = (\<lambda>t. Map.empty), sched = [], suffixes = [''k3x9q0ab'']\<rparr>"

text \<open>The same state with no file at all.\<close>

definition bare_world :: world where
  "bare_world =
     \<lparr>fs = \<lparr>names = Map.empty, data = (\<lambda>i. []), perms = (\<lambda>i. 0)\<rparr>,
      hist = [], next_ino = 0, opened = Map.empty, next_fd = 3, flocks = Map.empty,
      registry = (\<lambda>t. Map.empty), sched = [], suffixes = [''k3x9q0ab'']\<rparr>"

text \<open>The state reached from \<open>demo_world\<close> when thread 1 has locked the file.\<close>

definition demo_locked :: world where
  "demo_locked =
     demo_world\<lparr>opened := [3 \<mapsto> 0], next_fd := 5, flocks := [0 \<mapsto> 3],
                registry := (\<lambda>t. Map.empty)(1 := [demo_path \<mapsto> 3])\<rparr>"

section \<open>The combinators\<close>

lemma bnd_InrD:
  "bnd m f w = Some (Inr y, w') \<Longrightarrow> \<exists>x w1. m w = Some (Inr x, w1) \<and> f x w1 = Some (Inr y, w')"
  by (auto simp: bnd_def split: option.splits sum.splits)

lemma bnd_SomeD:
  "bnd m f w = Some (r, w') \<Longrightarrow>
     (\<exists>e. m w = Some (Inl e, w') \<and> r = Inl e)
     \<or> (\<exists>x w1. m w = Some (Inr x, w1) \<and> f x w1 = Some (r, w'))"
  by (auto simp: bnd_def split: option.splits sum.splits)

lemma bnd_assoc: "bnd (bnd m f) g = bnd m (\<lambda>x. bnd (f x) g)"
  by (rule ext) (simp add: bnd_def split: option.splits sum.splits)

lemma bnd_ret: "bnd (ret x) f = f x"
  by (rule ext) (simp add: bnd_def ret_def)

lemma syscall_calm: "sched w = [] \<Longrightarrow> syscall act w = act w"
  by (simp add: syscall_def)

lemma syscall_SomeD:
  "syscall act w = Some (r, w') \<Longrightarrow>
     (sched w = [] \<and> act w = Some (r, w'))
   \<or> (\<exists>es. sched w = Proceed # es \<and> act (w\<lparr>sched := es\<rparr>) = Some (r, w'))
   \<or> (\<exists>c n es. sched w = Fail c n # es \<and> r = Inl (OSError (EOTHER c)) \<and> w' = w\<lparr>sched := es\<rparr>)
   \<or> (\<exists>s es. sched w = Deliver s # es \<and> r = Inl (sig_exn s) \<and> w' = w\<lparr>sched := es\<rparr>)"
  by (auto simp: syscall_def split: list.splits event.splits)

lemma keeps_ret: "reflp R \<Longrightarrow> keeps R (ret x)"
  by (auto simp: keeps_def ret_def reflp_def)

lemma keeps_raise: "reflp R \<Longrightarrow> keeps R (raise e)"
  by (auto simp: keeps_def raise_def reflp_def)

lemma keeps_lift: "reflp R \<Longrightarrow> keeps R (lift r)"
  by (auto simp: keeps_def lift_def reflp_def)

lemma keeps_bnd:
  assumes "transp R" "keeps R m" "\<And>x. keeps R (f x)"
  shows "keeps R (bnd m f)"
  unfolding keeps_def
proof (intro allI impI)
  fix w r w' assume "bnd m f w = Some (r, w')"
  from bnd_SomeD [OF this] show "R w w'"
    using assms unfolding keeps_def transp_def by blast
qed

lemma keeps_catch:
  assumes "transp R" "keeps R m" "\<And>e. keeps R (h e)"
  shows "keeps R (catch m h)"
  unfolding keeps_def
proof (intro allI impI)
  fix w r w' assume c: "catch m h w = Some (r, w')"
  then have "m w = Some (r, w') \<or> (\<exists>e w1. m w = Some (Inl e, w1) \<and> h e w1 = Some (r, w'))"
    by (auto simp: catch_def split: option.splits sum.splits)
  then show "R w w'"
    using assms unfolding keeps_def transp_def by blast
qed

lemma fin_SomeD:
  "fin m c w = Some (r, w') \<Longrightarrow>
     (\<exists>r1 w1 e. m w = Some (r1, w1) \<and> c w1 = Some (Inl e, w') \<and> r = Inl e)
     \<or> (\<exists>w1. m w = Some (r, w1) \<and> c w1 = Some (Inr (), w'))"
  by (auto simp: fin_def split: option.splits sum.splits)

lemma keeps_fin:
  assumes "transp R" "keeps R m" "keeps R c"
  shows "keeps R (fin m c)"
  unfolding keeps_def
proof (intro allI impI)
  fix w r w' assume "fin m c w = Some (r, w')"
  from fin_SomeD [OF this] show "R w w'"
    using assms unfolding keeps_def transp_def by blast
qed

lemma keeps_syscall:
  assumes "transp R" "\<And>w es. R w (w\<lparr>sched := es\<rparr>)" "keeps R act"
  shows "keeps R (syscall act)"
  unfolding keeps_def
proof (intro allI impI)
  fix w r w' assume "syscall act w = Some (r, w')"
  from syscall_SomeD [OF this] show "R w w'"
    using assms unfolding keeps_def transp_def by blast
qed

lemma keeps_weaken: "keeps R m \<Longrightarrow> (\<And>w w'. R w w' \<Longrightarrow> R' w w') \<Longrightarrow> keeps R' m"
  by (auto simp: keeps_def)

lemma raises_only_bnd:
  "raises_only S m \<Longrightarrow> (\<And>x. raises_only S (f x)) \<Longrightarrow> raises_only S (bnd m f)"
  unfolding raises_only_def by (blast dest: bnd_SomeD)

lemma sig_exn_cases: "sig_exn s = MKTerminate \<or> sig_exn s = MKTimeout"
  by (cases s) (simp_all add: sig_exn_def)

lemma raises_only_syscall:
  assumes "\<And>c. S (OSError (EOTHER c))" "S MKTerminate" "S MKTimeout" "raises_only S act"
  shows "raises_only S (syscall act)"
  unfolding raises_only_def
proof (intro allI impI)
  fix w e w' assume "syscall act w = Some (Inl e, w')"
  from syscall_SomeD [OF this] show "S e"
    using assms sig_exn_cases unfolding raises_only_def by (metis sum.inject(1))
qed

section \<open>The loop of aquire_lock ends after one pass\<close>

lemma os_open_post:
  "os_open p w = Some (Inr d, w') \<Longrightarrow>
     opened w' d = names (fs w') p \<and> names (fs w') p \<noteq> None \<and> d = next_fd w
     \<and> (\<forall>d'. d' \<noteq> d \<longrightarrow> opened w' d' = opened w d') \<and> flocks w' = flocks w
     \<and> registry w' = registry w \<and> next_fd w' = Suc (next_fd w)
     \<and> (names (fs w) p \<noteq> None \<longrightarrow> fs w' = fs w)"
  by (auto simp: os_open_def syscall_def Let_def create_file_def set_fs_def
      split: list.splits event.splits option.splits if_splits)

lemma flock_or_close_InrD:
  "flock_or_close d b w = Some (Inr u, w') \<Longrightarrow>
     opened w' = opened w \<and> fs w' = fs w \<and> opened w d \<noteq> None"
  by (auto simp: flock_or_close_def catch_def bnd_def raise_def fcntl_flock_def syscall_def
      split: list.splits event.splits option.splits if_splits sum.splits exn.splits)

lemma sameopenfile_InrD:
  "sameopenfile d1 d2 w = Some (Inr b, w') \<Longrightarrow> b = (opened w d1 = opened w d2)"
  by (auto simp: sameopenfile_def syscall_def
      split: list.splits event.splits option.splits if_splits)

lemma aquire_loop_once:
  assumes "opened w d = names (fs w) p"
  shows "aquire_loop p blocking d w =
     bnd (flock_or_close d blocking) (\<lambda>u.
     bnd (os_open p) (\<lambda>d_new.
     bnd (sameopenfile d d_new) (\<lambda>same.
     bnd (os_close d_new) (\<lambda>u. ret d)))) w"
proof (cases "flock_or_close d blocking w")
  case None
  then show ?thesis by (subst aquire_loop.simps) (simp add: bnd_def)
next
  case (Some a)
  obtain r w1 where a: "a = (r, w1)" by (cases a)
  show ?thesis
  proof (cases r)
    case (Inl e)
    with Some a show ?thesis by (subst aquire_loop.simps) (simp add: bnd_def)
  next
    case (Inr u)
    with Some a have f: "flock_or_close d blocking w = Some (Inr u, w1)" by simp
    from flock_or_close_InrD [OF f] assms
    have w1: "opened w1 d = names (fs w1) p" "names (fs w1) p \<noteq> None" by auto
    show ?thesis
    proof (cases "os_open p w1")
      case None
      with f show ?thesis by (subst aquire_loop.simps) (simp add: bnd_def)
    next
      case (Some a2)
      obtain r2 w2 where a2: "a2 = (r2, w2)" by (cases a2)
      show ?thesis
      proof (cases r2)
        case (Inl e)
        with Some a2 f show ?thesis by (subst aquire_loop.simps) (simp add: bnd_def)
      next
        case (Inr d_new)
        with Some a2 have o: "os_open p w1 = Some (Inr d_new, w2)" by simp
        from os_open_post [OF o] w1
        have same: "opened w2 d = opened w2 d_new"
          by (cases "d = d_new") auto
        have "\<And>b w3. sameopenfile d d_new w2 = Some (Inr b, w3) \<Longrightarrow> b"
          using sameopenfile_InrD same by blast
        then show ?thesis using f o
          by (subst aquire_loop.simps)
             (auto simp add: bnd_def split: option.splits sum.splits)
      qed
    qed
  qed
qed

lemma aquire_lock_flat:
  "aquire_lock t p blocking w =
     (if have_lock t p w then ret () w else aquire_once t p blocking w)"
proof -
  have "bnd (os_open p) (\<lambda>d. bnd (aquire_loop p blocking d) (\<lambda>d'. priv_set_lock t p d')) w1 =
        bnd (os_open p) (\<lambda>d. bnd (flock_or_close d blocking) (\<lambda>u.
          bnd (os_open p) (\<lambda>d_new. bnd (sameopenfile d d_new) (\<lambda>same.
          bnd (os_close d_new) (\<lambda>u. priv_set_lock t p d))))) w1" for w1
  proof (cases "os_open p w1")
    case None
    then show ?thesis by (simp add: bnd_def)
  next
    case (Some a)
    obtain r w2 where a: "a = (r, w2)" by (cases a)
    show ?thesis
    proof (cases r)
      case (Inl e)
      with Some a show ?thesis by (simp add: bnd_def)
    next
      case (Inr d)
      with Some a have o: "os_open p w1 = Some (Inr d, w2)" by simp
      from os_open_post [OF o] have "opened w2 d = names (fs w2) p" by blast
      from aquire_loop_once [OF this, of blocking]
      have "bnd (aquire_loop p blocking d) (\<lambda>d'. priv_set_lock t p d') w2 =
            bnd (flock_or_close d blocking) (\<lambda>u.
              bnd (os_open p) (\<lambda>d_new. bnd (sameopenfile d d_new) (\<lambda>same.
              bnd (os_close d_new) (\<lambda>u. priv_set_lock t p d)))) w2"
        by (simp add: bnd_def ret_def split: option.splits sum.splits)
      with o show ?thesis by (simp add: bnd_def)
    qed
  qed
  then show ?thesis
    by (simp add: aquire_lock_def aquire_once_def bnd_def split: option.splits sum.splits)
qed

section \<open>Type checks of the save functions\<close>

text \<open>
  C9. \<open>save_text_to_file\<close> raises TypeError for content that is not text and
  \<open>save_bytes_to_file\<close> raises TypeError for content that is not bytes. The check comes
  first: no lock is taken and no file is touched, the state is the one before the call
  (registry, descriptors, locks, file system, and the schedule of pending events, so
  no operating-system call was made).
\<close>

theorem type_mismatch_rejected_before_io:
  "(\<not> is_str c1 \<longrightarrow>
      save_text_to_file L t p c1 mode w =
        Some (Inl (TypeError ''content argument must be Text, not bytes''), w))
   \<and> (\<not> is_bytes c2 \<longrightarrow>
      save_bytes_to_file t p c2 mode w =
        Some (Inl (TypeError ''content argument must be bytes, not Text''), w))"
  by (cases c1; cases c2) (simp_all add: save_text_to_file_def save_bytes_to_file_def raise_def)

theorem type_mismatch_rejected_before_io_witness:
  "\<not> is_str (PyBytes ''abc'') \<and> \<not> is_bytes (PyStr [97, 98, 99])
   \<and> save_text_to_file demo_lib 1 demo_path (PyBytes ''abc'') 432 demo_world =
        Some (Inl (TypeError ''content argument must be Text, not bytes''), demo_world)
   \<and> save_bytes_to_file 1 demo_path (PyStr [97, 98, 99]) 432 demo_world =
        Some (Inl (TypeError ''content argument must be bytes, not Text''), demo_world)"
  using type_mismatch_rejected_before_io
    [of "PyBytes ''abc''" demo_lib 1 demo_path 432 demo_world "PyStr [97, 98, 99]"]
  by simp

section \<open>Reading one value from a configuration file\<close>

lemma load_mk_file_unlocked:
  "load_mk_file L t p (Some d) False w = Some (r, w') \<Longrightarrow>
     registry w' = registry w \<and> opened w' = opened w \<and> flocks w' = flocks w \<and> fs w' = fs w"
  by (auto simp: load_mk_file_def exec_file_def when_lock_def bnd_def ret_def raise_def
      catch_def read_bytes_def syscall_def
      split: option.splits sum.splits list.splits event.splits exn.splits if_splits
        prod.splits)

text \<open>
  C10. \<open>load_from_mk_file\<close> ignores its \<open>lock\<close> argument: whatever it is, the call is the
  one with \<open>lock=False\<close>. It always returns or raises, and it leaves the registry of
  every thread, the open descriptors, the locks of the operating system and the file
  system as they were; a thread that did not hold the lock of the path before does
  not hold it after.
\<close>

theorem load_from_mk_file_never_locks:
  "load_from_mk_file L t p key dflt lock w = load_from_mk_file L t p key dflt False w
   \<and> load_from_mk_file L t p key dflt lock w \<noteq> None
   \<and> (\<forall>r w'. load_from_mk_file L t p key dflt lock w = Some (r, w') \<longrightarrow>
         registry w' = registry w \<and> opened w' = opened w \<and> flocks w' = flocks w
         \<and> fs w' = fs w \<and> (\<not> have_lock t p w \<longrightarrow> \<not> have_lock t p w'))"
proof (intro conjI allI impI)
  show "load_from_mk_file L t p key dflt lock w = load_from_mk_file L t p key dflt False w"
    by (simp add: load_from_mk_file_def)
  show "load_from_mk_file L t p key dflt lock w \<noteq> None"
    by (auto simp: load_from_mk_file_def load_mk_file_def exec_file_def when_lock_def bnd_def
        ret_def raise_def catch_def read_bytes_def syscall_def
        split: option.splits sum.splits list.splits event.splits exn.splits if_splits
          prod.splits)
next
  fix r w' assume run: "load_from_mk_file L t p key dflt lock w = Some (r, w')"
  then have "\<exists>r1. load_mk_file L t p (Some [key \<mapsto> dflt]) False w = Some (r1, w')"
    by (auto simp: load_from_mk_file_def bnd_def ret_def raise_def
        split: option.splits sum.splits)
  then obtain r1 where "load_mk_file L t p (Some [key \<mapsto> dflt]) False w = Some (r1, w')" ..
  from load_mk_file_unlocked [OF this]
  show "registry w' = registry w" "opened w' = opened w" "flocks w' = flocks w" "fs w' = fs w"
    by simp_all
  then show "\<not> have_lock t p w'" if "\<not> have_lock t p w"
    using that by (simp add: have_lock_def priv_has_lock_def)
qed

lemmas run_defs = ret_def raise_def bnd_def catch_def fin_def lift_def when_lock_def syscall_def
  set_fs_def create_file_def makedirs_def os_open_def fcntl_flock_def os_close_def
  sameopenfile_def NamedTemporaryFile_def os_chmod_def tmp_write_def tmp_close_def os_rename_def
  os_unlink_def read_bytes_def priv_set_lock_def priv_get_lock_def priv_del_lock_def
  priv_has_lock_def have_lock_def flock_or_close_def sig_exn_def aquire_lock_flat aquire_once_def
  release_lock_def try_aquire_lock_def

theorem load_from_mk_file_never_locks_witness:
  "load_from_mk_file demo_lib 1 demo_path ''x'' 5 True demo_world = Some (Inr 5, demo_world)
   \<and> \<not> have_lock 1 demo_path demo_world
   \<and> load_from_mk_file demo_lib 1 demo_path ''x'' 5 True demo_world
       = load_from_mk_file demo_lib 1 demo_path ''x'' 5 False demo_world"
  using load_from_mk_file_never_locks [of demo_lib 1 demo_path "''x''" 5 True demo_world]
  by (simp add: load_from_mk_file_def load_mk_file_def exec_file_def run_defs demo_lib_def
      demo_world_def)

section \<open>What locking and unlocking do to the registry\<close>

lemma catch_InrD:
  "catch m h w = Some (Inr x, w') \<Longrightarrow>
     m w = Some (Inr x, w') \<or> (\<exists>e w1. m w = Some (Inl e, w1) \<and> h e w1 = Some (Inr x, w'))"
  by (auto simp: catch_def split: option.splits sum.splits)

lemma catch_InlD:
  "catch m h w = Some (Inl e, w') \<Longrightarrow> \<exists>e1 w1. m w = Some (Inl e1, w1) \<and> h e1 w1 = Some (Inl e, w')"
  by (auto simp: catch_def split: option.splits sum.splits)

lemma raises_onlyD: "raises_only S m \<Longrightarrow> m w = Some (Inl e, w') \<Longrightarrow> S e"
  by (auto simp: raises_only_def)

lemma os_or_signal_simps [simp]:
  "os_or_signal (OSError x)" "os_or_signal MKTerminate" "os_or_signal MKTimeout"
  "\<not> os_or_signal (MKGeneralException a b)" "\<not> os_or_signal (TypeError m)"
  "\<not> os_or_signal (KeyError m)" "\<not> os_or_signal UnicodeDecodeError"
  "\<not> os_or_signal UnicodeEncodeError" "\<not> os_or_signal ValueError"
  by (simp_all add: os_or_signal_def)

lemma raises_only_makedirs: "raises_only os_or_signal (makedirs d m)"
  by (auto simp: raises_only_def makedirs_def syscall_def ret_def os_or_signal_def sig_exn_def
      split: list.splits event.splits signal.splits)

lemma raises_only_os_open: "raises_only os_or_signal (os_open p)"
  by (auto simp: raises_only_def os_open_def syscall_def Let_def os_or_signal_def sig_exn_def
      split: list.splits event.splits signal.splits option.splits)

lemma raises_only_os_close: "raises_only os_or_signal (os_close d)"
  by (auto simp: raises_only_def os_close_def syscall_def os_or_signal_def sig_exn_def
      split: list.splits event.splits signal.splits option.splits)

lemma raises_only_sameopenfile: "raises_only os_or_signal (sameopenfile d d')"
  by (auto simp: raises_only_def sameopenfile_def syscall_def os_or_signal_def sig_exn_def
      split: list.splits event.splits signal.splits option.splits)

lemma raises_only_fcntl_flock: "raises_only os_or_signal (fcntl_flock d b)"
  by (auto simp: raises_only_def fcntl_flock_def syscall_def os_or_signal_def sig_exn_def
      split: list.splits event.splits signal.splits option.splits if_splits)

lemma raises_only_flock_or_close: "raises_only os_or_signal (flock_or_close d b)"
  unfolding raises_only_def
proof (intro allI impI)
  fix w e w' assume "flock_or_close d b w = Some (Inl e, w')"
  then have "catch (fcntl_flock d b)
       (\<lambda>e. case e of OSError x \<Rightarrow> bnd (os_close d) (\<lambda>u. raise e) | _ \<Rightarrow> raise e) w
     = Some (Inl e, w')"
    by (simp add: flock_or_close_def)
  from catch_InlD [OF this]
  obtain e1 w1 where m: "fcntl_flock d b w = Some (Inl e1, w1)"
    and h: "(case e1 of OSError x \<Rightarrow> bnd (os_close d) (\<lambda>u. raise e1) | _ \<Rightarrow> raise e1) w1
             = Some (Inl e :: exn + unit, w')"
    by blast
  from raises_onlyD [OF raises_only_fcntl_flock m] have e1: "os_or_signal e1" .
  show "os_or_signal e"
  proof (cases e1)
    case (OSError x)
    with h have "bnd (os_close d) (\<lambda>u. raise e1) w1 = Some (Inl e :: exn + unit, w')" by simp
    from bnd_SomeD [OF this] e1 show ?thesis
      by (auto simp: raise_def dest: raises_onlyD [OF raises_only_os_close])
  qed (use h e1 in \<open>auto simp: raise_def\<close>)
qed

lemma raises_only_aquire_lock: "raises_only os_or_signal (aquire_lock t p b)"
proof -
  have "raises_only os_or_signal (aquire_once t p b)"
    unfolding aquire_once_def
    by (intro raises_only_bnd raises_only_makedirs raises_only_os_open raises_only_os_close
        raises_only_sameopenfile raises_only_flock_or_close)
       (simp add: raises_only_def priv_set_lock_def)
  then show ?thesis
    by (auto simp: raises_only_def aquire_lock_flat ret_def split: if_splits)
qed

lemma release_lock_total: "release_lock t p w \<noteq> None"
  by (auto simp: release_lock_def have_lock_def priv_has_lock_def priv_get_lock_def
      priv_del_lock_def bnd_def catch_def ret_def raise_def os_close_def syscall_def
      split: option.splits sum.splits list.splits event.splits exn.splits if_splits)

lemma release_lock_Inr:
  "release_lock t p w = Some (Inr u, w') \<Longrightarrow>
     \<not> have_lock t p w' \<and> fs w' = fs w \<and> hist w' = hist w \<and> next_ino w' = next_ino w
     \<and> (\<forall>t' p'. t' \<noteq> t \<or> p' \<noteq> p \<longrightarrow> registry w' t' p' = registry w t' p')"
  by (auto simp: release_lock_def have_lock_def priv_has_lock_def priv_get_lock_def
      priv_del_lock_def bnd_def catch_def ret_def raise_def os_close_def syscall_def
      split: option.splits sum.splits list.splits event.splits exn.splits if_splits errno.splits)

lemma release_lock_Inl:
  "release_lock t p w = Some (Inl e, w') \<Longrightarrow>
     (e = MKTerminate \<or> e = MKTimeout \<or> (\<exists>c. e = OSError (EOTHER c)))
     \<and> registry w' = registry w \<and> have_lock t p w \<and> fs w' = fs w \<and> hist w' = hist w"
  by (auto simp: release_lock_def have_lock_def priv_has_lock_def priv_get_lock_def
      priv_del_lock_def bnd_def catch_def ret_def raise_def os_close_def syscall_def sig_exn_def
      split: option.splits sum.splits list.splits event.splits exn.splits if_splits errno.splits
        signal.splits)

lemma aquire_lock_reentrant: "have_lock t p w \<Longrightarrow> aquire_lock t p b w = Some (Inr (), w)"
  by (simp add: aquire_lock_def ret_def)

lemma aquire_lock_Inr_have:
  assumes "aquire_lock t p b w = Some (Inr u, w')"
  shows "have_lock t p w'"
proof (cases "have_lock t p w")
  case True
  with assms show ?thesis by (simp add: aquire_lock_def ret_def)
next
  case False
  with assms have "aquire_once t p b w = Some (Inr u, w')"
    by (simp add: aquire_lock_flat)
  then obtain d w6 where "priv_set_lock t p d w6 = Some (Inr u, w')"
    unfolding aquire_once_def by (blast dest: bnd_InrD)
  then show ?thesis
    by (auto simp: priv_set_lock_def have_lock_def priv_has_lock_def)
qed


section \<open>Loading with \<open>lock=True\<close>\<close>

lemma read_bytes_same:
  "read_bytes p w = Some (r, w') \<Longrightarrow> registry w' = registry w \<and> fs w' = fs w"
  by (auto simp: read_bytes_def dest!: syscall_SomeD split: option.splits)

lemma priv_load_lock_fails:
  "aquire_lock t p True w = Some (Inl e, w1) \<Longrightarrow>
     priv_load_bytes_from_file t p True w = Some (Inl e, w1)"
  by (simp add: priv_load_bytes_from_file_def when_lock_def bnd_def)

lemma priv_load_lock_waits:
  "aquire_lock t p True w = None \<Longrightarrow> priv_load_bytes_from_file t p True w = None"
  by (simp add: priv_load_bytes_from_file_def when_lock_def bnd_def)

lemma priv_load_read_ok:
  assumes "aquire_lock t p True w = Some (Inr (), w1)"
    and "read_bytes p w1 = Some (Inr b, w2)
         \<or> (read_bytes p w1 = Some (Inl (OSError ENOENT), w2) \<and> b = [])"
  shows "priv_load_bytes_from_file t p True w = Some (Inr b, w2)"
    and "priv_load_bytes_from_file t p False w1 = Some (Inr b, w2)"
    and "have_lock t p w2"
proof -
  from assms show "priv_load_bytes_from_file t p True w = Some (Inr b, w2)"
    by (auto simp: priv_load_bytes_from_file_def when_lock_def bnd_def catch_def ret_def)
  from assms(2) show "priv_load_bytes_from_file t p False w1 = Some (Inr b, w2)"
    by (auto simp: priv_load_bytes_from_file_def when_lock_def bnd_def catch_def ret_def)
  from assms(2) have "registry w2 = registry w1" by (auto dest: read_bytes_same)
  with aquire_lock_Inr_have [OF assms(1)] show "have_lock t p w2"
    by (simp add: have_lock_def priv_has_lock_def)
qed

lemma priv_load_read_fails:
  assumes "aquire_lock t p True w = Some (Inr (), w1)"
    and "read_bytes p w1 = Some (Inl x, w2)" "x \<noteq> OSError ENOENT"
    and "release_lock t p w2 = Some (r, w3)"
  shows "priv_load_bytes_from_file t p True w
     = Some (Inl (case r of Inl y \<Rightarrow> y | Inr u \<Rightarrow> read_failure p x), w3)"
proof -
  from assms(2,3) have "catch (read_bytes p)
      (\<lambda>e. case e of OSError ENOENT \<Rightarrow> ret [] | _ \<Rightarrow> raise e) w1 = Some (Inl x, w2)"
    by (cases x) (auto simp: catch_def raise_def split: errno.splits)
  with assms(1,4) show ?thesis
    by (cases r)
       (auto simp: priv_load_bytes_from_file_def when_lock_def bnd_def catch_def raise_def
          read_failure_def)
qed

text \<open>
  C6, as the code has it. A load with \<open>lock=True\<close> by \<open>load_bytes_from_file\<close>,
  \<open>load_text_from_file\<close> or \<open>load_object_from_file\<close> begins with \<open>aquire_lock(path)\<close>, in the
  state the call starts in. Where that waits for ever or raises, so does the load, in the
  same state: nothing is read. Where it returns, the thread holds the lock and the file
  is read in the state the locking has left. Where the read returns (the empty bytes for a
  missing file), the load ends in the state after the read, with the lock still held,
  and is what the load with \<open>lock=False\<close> is from the state after the locking; the lock is
  not given back (a later save, or \<open>release_lock\<close>, releases it). Only where the read
  fails \<open>release_lock(path)\<close> is called: where it returns, the thread no longer holds
  the lock and the load raises MKGeneralException (MKTerminate and MKTimeout as they
  are); where it raises, its exception is the outcome and the lock is still recorded.
\<close>

theorem load_with_lock_keeps_lock:
  "(aquire_lock t p True w = None \<longrightarrow>
      load_bytes_from_file t p db True w = None
      \<and> load_text_from_file L t p ds True w = None
      \<and> load_object_from_file L t p dv True w = None)
   \<and> (aquire_lock t p True w = Some (Inl e, w1) \<longrightarrow>
      load_bytes_from_file t p db True w = Some (Inl e, w1)
      \<and> load_text_from_file L t p ds True w = Some (Inl e, w1)
      \<and> load_object_from_file L t p dv True w = Some (Inl e, w1))
   \<and> (aquire_lock t p True w = Some (Inr (), w1) \<longrightarrow>
      have_lock t p w1
      \<and> (read_bytes p w1 = Some (Inr b, w2)
           \<or> (read_bytes p w1 = Some (Inl (OSError ENOENT), w2) \<and> b = []) \<longrightarrow>
         have_lock t p w2
         \<and> load_bytes_from_file t p db True w = Some (Inr (if b \<noteq> [] then b else db), w2)
         \<and> (\<exists>r. load_text_from_file L t p ds True w = Some (r, w2))
         \<and> (\<exists>r. load_object_from_file L t p dv True w = Some (r, w2))
         \<and> load_bytes_from_file t p db True w = load_bytes_from_file t p db False w1
         \<and> load_text_from_file L t p ds True w = load_text_from_file L t p ds False w1
         \<and> load_object_from_file L t p dv True w = load_object_from_file L t p dv False w1)
      \<and> (read_bytes p w1 = Some (Inl x, w2) \<and> x \<noteq> OSError ENOENT \<longrightarrow>
         (release_lock t p w2 = Some (Inr (), w3) \<longrightarrow>
            \<not> have_lock t p w3
            \<and> load_bytes_from_file t p db True w = Some (Inl (read_failure p x), w3)
            \<and> load_text_from_file L t p ds True w = Some (Inl (read_failure p x), w3)
            \<and> load_object_from_file L t p dv True w = Some (Inl (read_failure p x), w3))
         \<and> (release_lock t p w2 = Some (Inl y, w3) \<longrightarrow>
            have_lock t p w3
            \<and> load_bytes_from_file t p db True w = Some (Inl y, w3)
            \<and> load_text_from_file L t p ds True w = Some (Inl y, w3)
            \<and> load_object_from_file L t p dv True w = Some (Inl y, w3))))"
proof (intro conjI impI)
  assume "aquire_lock t p True w = None"
  note n = priv_load_lock_waits [OF this]
  from n show "load_bytes_from_file t p db True w = None"
    by (simp add: load_bytes_from_file_def bnd_def)
  from n show "load_text_from_file L t p ds True w = None"
    by (simp add: load_text_from_file_def bnd_def)
  from n show "load_object_from_file L t p dv True w = None"
    by (simp add: load_object_from_file_def bnd_def)
next
  assume "aquire_lock t p True w = Some (Inl e, w1)"
  note f = priv_load_lock_fails [OF this]
  from f show "load_bytes_from_file t p db True w = Some (Inl e, w1)"
    by (simp add: load_bytes_from_file_def bnd_def)
  from f show "load_text_from_file L t p ds True w = Some (Inl e, w1)"
    by (simp add: load_text_from_file_def bnd_def)
  from f show "load_object_from_file L t p dv True w = Some (Inl e, w1)"
    by (simp add: load_object_from_file_def bnd_def)
next
  assume a: "aquire_lock t p True w = Some (Inr (), w1)"
  from aquire_lock_Inr_have [OF a] show "have_lock t p w1" .
  {
    assume r: "read_bytes p w1 = Some (Inr b, w2)
         \<or> (read_bytes p w1 = Some (Inl (OSError ENOENT), w2) \<and> b = [])"
    note k = priv_load_read_ok [OF a r]
    from k(3) show "have_lock t p w2" .
    from k(1) show "load_bytes_from_file t p db True w
        = Some (Inr (if b \<noteq> [] then b else db), w2)"
      by (simp add: load_bytes_from_file_def bnd_def ret_def)
    from k(1) show "\<exists>r. load_text_from_file L t p ds True w = Some (r, w2)"
      by (cases "utf8_decode L b") (simp_all add: load_text_from_file_def bnd_def lift_def ret_def)
    from k(1) show "\<exists>r. load_object_from_file L t p dv True w = Some (r, w2)"
      by (cases "utf8_decode L b")
         (simp_all add: load_object_from_file_def bnd_def lift_def ret_def)
    from k(1,2) show "load_bytes_from_file t p db True w = load_bytes_from_file t p db False w1"
      by (simp add: load_bytes_from_file_def bnd_def)
    from k(1,2) show "load_text_from_file L t p ds True w = load_text_from_file L t p ds False w1"
      by (simp add: load_text_from_file_def bnd_def)
    from k(1,2)
    show "load_object_from_file L t p dv True w = load_object_from_file L t p dv False w1"
      by (simp add: load_object_from_file_def bnd_def)
  }
  {
    assume r: "read_bytes p w1 = Some (Inl x, w2) \<and> x \<noteq> OSError ENOENT"
    {
      assume c: "release_lock t p w2 = Some (Inr (), w3)"
      from release_lock_Inr [OF c] show "\<not> have_lock t p w3" by simp
      from r have "priv_load_bytes_from_file t p True w = Some (Inl (read_failure p x), w3)"
        using priv_load_read_fails [OF a _ _ c] by simp
      note f = this
      from f show "load_bytes_from_file t p db True w = Some (Inl (read_failure p x), w3)"
        by (simp add: load_bytes_from_file_def bnd_def)
      from f show "load_text_from_file L t p ds True w = Some (Inl (read_failure p x), w3)"
        by (simp add: load_text_from_file_def bnd_def)
      from f show "load_object_from_file L t p dv True w = Some (Inl (read_failure p x), w3)"
        by (simp add: load_object_from_file_def bnd_def)
    }
    {
      assume c: "release_lock t p w2 = Some (Inl y, w3)"
      from release_lock_Inl [OF c] show "have_lock t p w3"
        by (simp add: have_lock_def priv_has_lock_def)
      from r have "priv_load_bytes_from_file t p True w = Some (Inl y, w3)"
        using priv_load_read_fails [OF a _ _ c] by simp
      note f = this
      from f show "load_bytes_from_file t p db True w = Some (Inl y, w3)"
        by (simp add: load_bytes_from_file_def bnd_def)
      from f show "load_text_from_file L t p ds True w = Some (Inl y, w3)"
        by (simp add: load_text_from_file_def bnd_def)
      from f show "load_object_from_file L t p dv True w = Some (Inl y, w3)"
        by (simp add: load_object_from_file_def bnd_def)
    }
  }
qed

lemmas load_defs = load_bytes_from_file_def load_text_from_file_def load_object_from_file_def
  priv_load_bytes_from_file_def

text \<open>
  C6 as the specification words it fails: with the file of \<open>demo_world\<close> and no disturbance,
  \<open>load_bytes_from_file(path, lock=True)\<close> returns the content and the thread still holds
  the lock.
\<close>

theorem load_with_lock_counterexample:
  "fst (the (load_bytes_from_file 1 demo_path [] True demo_world)) = Inr ''7''
   \<and> have_lock 1 demo_path (snd (the (load_bytes_from_file 1 demo_path [] True demo_world)))"
  by (simp add: load_defs run_defs demo_world_def demo_path_def)

theorem load_with_lock_keeps_lock_witness:
  "aquire_lock 1 demo_path True (demo_world\<lparr>sched := [Fail 5 0]\<rparr>)
     = Some (Inl (OSError (EOTHER 5)), demo_world\<lparr>sched := []\<rparr>)
   \<and> load_object_from_file demo_lib 1 demo_path 0 True (demo_world\<lparr>sched := [Fail 5 0]\<rparr>)
     = Some (Inl (OSError (EOTHER 5)), demo_world\<lparr>sched := []\<rparr>)
   \<and> aquire_lock 1 demo_path True demo_world = Some (Inr (), demo_locked)
   \<and> read_bytes demo_path demo_locked = Some (Inr ''7'', demo_locked)
   \<and> have_lock 1 demo_path demo_locked
   \<and> load_bytes_from_file 1 demo_path [] True demo_world = Some (Inr ''7'', demo_locked)
   \<and> load_text_from_file demo_lib 1 demo_path [] True demo_world = Some (Inr [55], demo_locked)
   \<and> load_object_from_file demo_lib 1 demo_path 0 True demo_world = Some (Inr 7, demo_locked)
   \<and> aquire_lock 1 demo_path True
        (demo_world\<lparr>sched := [Proceed, Proceed, Proceed, Proceed, Proceed, Proceed, Fail 5 0]\<rparr>)
     = Some (Inr (), demo_locked\<lparr>sched := [Fail 5 0]\<rparr>)
   \<and> read_bytes demo_path (demo_locked\<lparr>sched := [Fail 5 0]\<rparr>)
     = Some (Inl (OSError (EOTHER 5)), demo_locked\<lparr>sched := []\<rparr>)
   \<and> release_lock 1 demo_path (demo_locked\<lparr>sched := []\<rparr>)
     = Some (Inr (), snd (the (release_lock 1 demo_path (demo_locked\<lparr>sched := []\<rparr>))))
   \<and> \<not> have_lock 1 demo_path (snd (the (release_lock 1 demo_path (demo_locked\<lparr>sched := []\<rparr>))))
   \<and> load_text_from_file demo_lib 1 demo_path [] True
        (demo_world\<lparr>sched := [Proceed, Proceed, Proceed, Proceed, Proceed, Proceed, Fail 5 0]\<rparr>)
     = Some (Inl (MKGeneralException ''Cannot read file'' (Some (demo_path, OSError (EOTHER 5)))),
             snd (the (release_lock 1 demo_path (demo_locked\<lparr>sched := []\<rparr>))))"
  using load_with_lock_keeps_lock [where t = 1 and p = demo_path and L = demo_lib
      and w = "demo_world\<lparr>sched := [Fail 5 0]\<rparr>" and e = "OSError (EOTHER 5)"
      and ?w1.0 = "demo_world\<lparr>sched := []\<rparr>" and dv = 0]
    load_with_lock_keeps_lock [where t = 1 and p = demo_path and L = demo_lib
      and w = demo_world and ?w1.0 = demo_locked and b = "''7''" and ?w2.0 = demo_locked
      and db = "[]" and ds = "[]" and dv = 0]
    load_with_lock_keeps_lock [where t = 1 and p = demo_path and L = demo_lib
      and w = "demo_world\<lparr>sched := [Proceed, Proceed, Proceed, Proceed, Proceed, Proceed,
                 Fail 5 0]\<rparr>"
      and ?w1.0 = "demo_locked\<lparr>sched := [Fail 5 0]\<rparr>" and x = "OSError (EOTHER 5)"
      and ?w2.0 = "demo_locked\<lparr>sched := []\<rparr>"
      and ?w3.0 = "snd (the (release_lock 1 demo_path (demo_locked\<lparr>sched := []\<rparr>)))"
      and ds = "[]"]
  by (simp add: load_defs run_defs demo_world_def demo_locked_def demo_path_def demo_lib_def
      ascii_decode_def demo_literal_eval_def read_failure_def fun_eq_iff)

section \<open>Taking a free lock when nothing disturbs\<close>

lemma aquire_lock_calm:
  assumes "sched w = []" "\<not> have_lock t p w" "free_to_lock p w"
  shows "\<exists>w'. aquire_lock t p b w = Some (Inr (), w') \<and> lock_held t p w' \<and> sched w' = []
           \<and> registry w' = (registry w)(t := (registry w t)(p \<mapsto> next_fd w))
           \<and> visible (fs w') p = (case visible (fs w) p of None \<Rightarrow> Some [] | Some b \<Rightarrow> Some b)
           \<and> (\<forall>q. q \<noteq> p \<longrightarrow> names (fs w') q = names (fs w) q)
           \<and> suffixes w' = suffixes w
           \<and> (fresh_for p w \<longrightarrow> fresh_for p w')"
  using assms
  by (cases "names (fs w) p")
     (auto simp: run_defs Let_def lock_held_def free_to_lock_def visible_def fresh_for_def)

section \<open>Saving: the \<open>finally\<close> clause\<close>

text \<open>
  C5, as the code has it. On every exit of the \<open>try\<close> block of \<open>_save_data_to_file\<close> the
  \<open>finally\<close> clause runs \<open>release_lock(path)\<close>. Where that call returns, the registry of
  the calling thread no longer records the path: so after every normal return and after
  every write error (MKGeneralException). Where closing the lock descriptor raises
  (an OSError other than EBADF, or MKTerminate or MKTimeout delivered at it),
  \<open>release_lock\<close> re-raises, that exception is the outcome of the call, and the
  registry still records the path.
\<close>

theorem save_runs_release_lock:
  "priv_save_data_to_file t p content mode w = Some (r, w') \<Longrightarrow>
     ((\<exists>w1. save_attempt t p content mode w = Some (r, w1)
            \<and> release_lock t p w1 = Some (Inr (), w') \<and> \<not> have_lock t p w')
      \<or> (\<exists>r1 w1 e. save_attempt t p content mode w = Some (r1, w1)
            \<and> release_lock t p w1 = Some (Inl e, w') \<and> r = Inl e
            \<and> (e = MKTerminate \<or> e = MKTimeout \<or> (\<exists>c. e = OSError (EOTHER c)))
            \<and> have_lock t p w'))
     \<and> (r = Inr () \<longrightarrow> \<not> have_lock t p w')
     \<and> (\<forall>m c. r = Inl (MKGeneralException m c) \<longrightarrow> \<not> have_lock t p w')"
proof -
  assume "priv_save_data_to_file t p content mode w = Some (r, w')"
  then have "fin (save_attempt t p content mode) (release_lock t p) w = Some (r, w')"
    by (simp add: priv_save_data_to_file_def)
  from fin_SomeD [OF this] show ?thesis
  proof (elim disjE exE conjE)
    fix r1 w1 e
    assume a: "save_attempt t p content mode w = Some (r1, w1)"
      and c: "release_lock t p w1 = Some (Inl e, w')" and r: "r = Inl e"
    from release_lock_Inl [OF c] a c r show ?thesis
      by (auto simp: have_lock_def priv_has_lock_def)
  next
    fix w1
    assume a: "save_attempt t p content mode w = Some (r, w1)"
      and c: "release_lock t p w1 = Some (Inr (), w')"
    from release_lock_Inr [OF c] a c show ?thesis by auto
  qed
qed


lemmas save_defs = priv_save_data_to_file_def save_attempt_def save_try_def save_except_def
  with_tmp_def

text \<open>
  C5 as the specification words it fails: the content is written and renamed into place, then
  \<open>os.close\<close> of the lock descriptor fails in \<open>release_lock\<close>; the error propagates and
  the registry still records the path.
\<close>

theorem save_release_counterexample:
  "fst (the (priv_save_data_to_file 1 demo_path ''abc'' 432
        (demo_world\<lparr>sched := [Proceed, Proceed, Proceed, Proceed, Proceed, Proceed, Proceed,
           Proceed, Proceed, Proceed, Proceed, Fail 5 0]\<rparr>))) = Inl (OSError (EOTHER 5))
   \<and> have_lock 1 demo_path (snd (the (priv_save_data_to_file 1 demo_path ''abc'' 432
        (demo_world\<lparr>sched := [Proceed, Proceed, Proceed, Proceed, Proceed, Proceed, Proceed,
           Proceed, Proceed, Proceed, Proceed, Fail 5 0]\<rparr>))))
   \<and> visible (fs (snd (the (priv_save_data_to_file 1 demo_path ''abc'' 432
        (demo_world\<lparr>sched := [Proceed, Proceed, Proceed, Proceed, Proceed, Proceed, Proceed,
           Proceed, Proceed, Proceed, Proceed, Fail 5 0]\<rparr>))))) demo_path = Some ''abc''"
  by (simp add: save_defs run_defs demo_world_def demo_path_def visible_def)

theorem save_runs_release_lock_witness:
  "priv_save_data_to_file 1 demo_path ''abc'' 432 demo_world
     = Some (Inr (), snd (the (priv_save_data_to_file 1 demo_path ''abc'' 432 demo_world)))
   \<and> \<not> have_lock 1 demo_path (snd (the (priv_save_data_to_file 1 demo_path ''abc'' 432 demo_world)))
   \<and> priv_save_data_to_file 1 demo_path ''abc'' 432
        (demo_world\<lparr>sched := [Proceed, Proceed, Proceed, Proceed, Proceed, Proceed, Proceed,
           Proceed, Fail 28 2]\<rparr>)
     = Some (Inl (MKGeneralException ''Cannot write configuration file''
                    (Some (demo_path, OSError (EOTHER 28)))),
             snd (the (priv_save_data_to_file 1 demo_path ''abc'' 432
        (demo_world\<lparr>sched := [Proceed, Proceed, Proceed, Proceed, Proceed, Proceed, Proceed,
           Proceed, Fail 28 2]\<rparr>))))
   \<and> \<not> have_lock 1 demo_path (snd (the (priv_save_data_to_file 1 demo_path ''abc'' 432
        (demo_world\<lparr>sched := [Proceed, Proceed, Proceed, Proceed, Proceed, Proceed, Proceed,
           Proceed, Fail 28 2]\<rparr>))))"
  using save_runs_release_lock [where t = 1 and p = demo_path and content = "''abc''"
      and mode = 432 and w = demo_world and r = "Inr ()"
      and w' = "snd (the (priv_save_data_to_file 1 demo_path ''abc'' 432 demo_world))"]
  by (simp add: save_defs run_defs demo_world_def demo_path_def)

section \<open>Non-blocking acquisition always returns; acquisition registers at most once\<close>

lemma aquire_once_split: "aquire_once t p b = bnd (lock_fd p b) (priv_set_lock t p)"
  by (simp add: aquire_once_def lock_fd_def bnd_assoc bnd_ret)

lemma bnd_total: "(\<And>w. m w \<noteq> None) \<Longrightarrow> (\<And>x w. f x w \<noteq> None) \<Longrightarrow> bnd m f w \<noteq> None"
  by (auto simp: bnd_def split: option.splits sum.splits)

lemma syscall_total: "(\<And>w. act w \<noteq> None) \<Longrightarrow> syscall act w \<noteq> None"
  by (auto simp: syscall_def split: list.splits event.splits)

lemma prims_total:
  "makedirs d m w \<noteq> None" "os_open p w \<noteq> None" "os_close fd w \<noteq> None"
  "sameopenfile fd fd' w \<noteq> None" "fcntl_flock fd False w \<noteq> None"
  unfolding makedirs_def os_open_def os_close_def sameopenfile_def fcntl_flock_def
  by (rule syscall_total, simp add: ret_def Let_def split: option.splits)+

lemma catch_total: "(\<And>w. m w \<noteq> None) \<Longrightarrow> (\<And>e w. h e w \<noteq> None) \<Longrightarrow> catch m h w \<noteq> None"
  by (auto simp: catch_def split: option.splits sum.splits)

lemma flock_or_close_total: "flock_or_close fd False w \<noteq> None"
  unfolding flock_or_close_def
proof (rule catch_total)
  fix e w
  show "(case e of OSError x \<Rightarrow> bnd (os_close fd) (\<lambda>u. raise e) | _ \<Rightarrow> raise e) w
          \<noteq> (None :: ((exn + unit) \<times> world) option)"
  proof (cases e)
    case (OSError x)
    have "bnd (os_close fd) (\<lambda>u. raise e) w \<noteq> (None :: ((exn + unit) \<times> world) option)"
      by (rule bnd_total) (simp_all add: prims_total raise_def)
    with OSError show ?thesis by simp
  qed (simp_all add: raise_def)
qed (rule prims_total)

lemma lock_fd_total: "lock_fd p False w \<noteq> None"
  unfolding lock_fd_def
  by (intro bnd_total prims_total flock_or_close_total) (simp add: ret_def)

lemma aquire_lock_total: "aquire_lock t p False w \<noteq> None"
proof (cases "have_lock t p w")
  case True
  then show ?thesis by (simp add: aquire_lock_def ret_def)
next
  case False
  have "bnd (lock_fd p False) (priv_set_lock t p) w \<noteq> None"
    by (rule bnd_total) (simp_all add: lock_fd_total priv_set_lock_def)
  with False show ?thesis by (simp add: aquire_lock_flat aquire_once_split)
qed

lemma try_aquire_lock_total: "try_aquire_lock t p w \<noteq> None"
  unfolding try_aquire_lock_def
proof (rule catch_total)
  fix w
  show "bnd (aquire_lock t p False) (\<lambda>u. ret True) w \<noteq> None"
    by (rule bnd_total) (simp_all add: aquire_lock_total ret_def)
next
  fix e w
  show "(case e of OSError x \<Rightarrow> if x \<noteq> EAGAIN then raise e else ret False | _ \<Rightarrow> raise e) w
          \<noteq> None"
    by (cases e) (auto simp: raise_def ret_def)
qed

lemma reg_same_rt: "reflp reg_same" "transp reg_same"
  by (auto simp: reg_same_def reflp_def transp_def)

lemma keeps_reg_same_prims:
  "keeps reg_same (makedirs d m)" "keeps reg_same (os_open p)" "keeps reg_same (os_close fd)"
  "keeps reg_same (sameopenfile fd fd')" "keeps reg_same (fcntl_flock fd b)"
  by (auto simp: keeps_def reg_same_def makedirs_def os_open_def os_close_def sameopenfile_def
      fcntl_flock_def ret_def Let_def create_file_def set_fs_def
      dest!: syscall_SomeD split: option.splits if_splits)

lemma keeps_reg_same_flock_or_close: "keeps reg_same (flock_or_close fd b)"
  unfolding flock_or_close_def
  apply (rule keeps_catch [OF reg_same_rt(2) keeps_reg_same_prims(5)])
  subgoal for e
    by (cases e) (auto intro!: keeps_bnd keeps_raise reg_same_rt keeps_reg_same_prims)
  done

lemma keeps_reg_same_lock_fd: "keeps reg_same (lock_fd p b)"
  unfolding lock_fd_def
  by (intro keeps_bnd keeps_ret reg_same_rt keeps_reg_same_prims keeps_reg_same_flock_or_close)

lemma aquire_lock_registers_once:
  assumes "aquire_lock t p b w = Some (r, w')"
  shows "registry w' = registry w
         \<or> (registry w t p = None \<and> r = Inr ()
            \<and> (\<exists>d. registry w' = (registry w)(t := (registry w t)(p \<mapsto> d))))"
proof (cases "have_lock t p w")
  case True
  with assms show ?thesis by (simp add: aquire_lock_def ret_def)
next
  case False
  with assms have "bnd (lock_fd p b) (priv_set_lock t p) w = Some (r, w')"
    by (simp add: aquire_lock_flat aquire_once_split)
  from bnd_SomeD [OF this] keeps_reg_same_lock_fd [of p b] False show ?thesis
    by (auto simp: keeps_def reg_same_def priv_set_lock_def have_lock_def priv_has_lock_def)
qed


section \<open>Re-entrant locking\<close>

lemma aquire_times_reentrant:
  "have_lock t p w \<Longrightarrow> aquire_times n t p b w = Some (Inr (), w)"
  by (induction n) (simp_all add: ret_def bnd_def aquire_lock_reentrant)

lemma lock_heldD:
  "lock_held t p w \<Longrightarrow>
     \<exists>d i. registry w t p = Some d \<and> opened w d = Some i \<and> names (fs w) p = Some i
           \<and> flocks w i = Some d"
  by (auto simp: lock_held_def split: option.splits)

lemma release_lock_calm:
  assumes "lock_held t p w" "sched w = []"
  shows "\<exists>w1. release_lock t p w = Some (Inr (), w1) \<and> \<not> have_lock t p w1 \<and> free_to_lock p w1
           \<and> sched w1 = [] \<and> fs w1 = fs w \<and> next_fd w1 = next_fd w
           \<and> (\<forall>t'. t' \<noteq> t \<longrightarrow> registry w1 t' = registry w t')"
proof -
  from lock_heldD [OF assms(1)] obtain d i where
    "registry w t p = Some d" "opened w d = Some i" "names (fs w) p = Some i" "flocks w i = Some d"
    by blast
  then show ?thesis using assms(2)
    by (simp add: release_lock_def have_lock_def priv_has_lock_def priv_get_lock_def bnd_def
        catch_def os_close_def syscall_def priv_del_lock_def free_to_lock_def)
qed

text \<open>
  C3. Acquisition is re-entrant and does not count. (1) When the registry of the calling
  thread records \<open>p\<close>, \<open>aquire_lock(p)\<close> returns at once and the state is untouched: no
  operating-system call is made (the schedule of events is not consumed, no descriptor
  opened, no lock taken), and so for any number \<open>n\<close> of acquisitions in a row. (2) When
  \<open>release_lock(p)\<close> returns, \<open>have_lock(p)\<close> is false. (3) Where the thread holds the lock
  and nothing disturbs, \<open>n\<close> further acquisitions followed by a single release leave the
  path unlocked, in the registry and in the operating system, and the next acquisition
  succeeds with a new descriptor that holds a new lock. (4) \<open>aquire_lock\<close> changes a
  registry only by entering a descriptor for its own thread and path, and only where
  there was none: an entry is never replaced.
\<close>

theorem reentrant_non_counting:
  "(have_lock t p w \<longrightarrow>
      aquire_lock t p b w = Some (Inr (), w) \<and> aquire_times n t p b w = Some (Inr (), w))
   \<and> (\<forall>u w1. release_lock t p w = Some (Inr u, w1) \<longrightarrow> \<not> have_lock t p w1)
   \<and> (lock_held t p w \<and> sched w = [] \<longrightarrow>
        (\<exists>w1 w2. bnd (aquire_times n t p b) (\<lambda>u. release_lock t p) w = Some (Inr (), w1)
           \<and> \<not> have_lock t p w1 \<and> free_to_lock p w1
           \<and> aquire_lock t p b w1 = Some (Inr (), w2) \<and> lock_held t p w2
           \<and> registry w2 t p = Some (next_fd w1)))
   \<and> (\<forall>r w'. aquire_lock t p b w = Some (r, w') \<longrightarrow>
         registry w' = registry w
         \<or> (registry w t p = None \<and> r = Inr ()
            \<and> (\<exists>d. registry w' = (registry w)(t := (registry w t)(p \<mapsto> d)))))"
proof (intro conjI impI allI)
  assume "have_lock t p w"
  then show "aquire_lock t p b w = Some (Inr (), w)" "aquire_times n t p b w = Some (Inr (), w)"
    by (simp_all add: aquire_lock_reentrant aquire_times_reentrant)
next
  fix u w1 assume "release_lock t p w = Some (Inr u, w1)"
  from release_lock_Inr [OF this] show "\<not> have_lock t p w1" by simp
next
  assume a: "lock_held t p w \<and> sched w = []"
  then have held: "have_lock t p w"
    by (auto simp: have_lock_def priv_has_lock_def dest: lock_heldD)
  from a release_lock_calm [of t p w] obtain w1 where
    r: "release_lock t p w = Some (Inr (), w1)" and w1: "\<not> have_lock t p w1" "free_to_lock p w1"
      "sched w1 = []"
    by blast
  from aquire_lock_calm [OF w1(3) w1(1) w1(2), of b] obtain w2 where
    "aquire_lock t p b w1 = Some (Inr (), w2)" "lock_held t p w2"
    "registry w2 = (registry w1)(t := (registry w1 t)(p \<mapsto> next_fd w1))"
    by blast
  moreover have "bnd (aquire_times n t p b) (\<lambda>u. release_lock t p) w = Some (Inr (), w1)"
    using r by (simp add: bnd_def aquire_times_reentrant [OF held])
  ultimately show "\<exists>w1 w2. bnd (aquire_times n t p b) (\<lambda>u. release_lock t p) w = Some (Inr (), w1)
           \<and> \<not> have_lock t p w1 \<and> free_to_lock p w1
           \<and> aquire_lock t p b w1 = Some (Inr (), w2) \<and> lock_held t p w2
           \<and> registry w2 t p = Some (next_fd w1)"
    using w1 by (intro exI [of _ w1] exI [of _ w2]) simp
next
  fix r w' assume "aquire_lock t p b w = Some (r, w')"
  from aquire_lock_registers_once [OF this]
  show "registry w' = registry w
         \<or> (registry w t p = None \<and> r = Inr ()
            \<and> (\<exists>d. registry w' = (registry w)(t := (registry w t)(p \<mapsto> d))))" .
qed


lemma demo_locked_reached:
  "aquire_lock 1 demo_path True demo_world = Some (Inr (), demo_locked)"
  by (simp add: run_defs demo_world_def demo_locked_def demo_path_def fun_eq_iff)

theorem reentrant_non_counting_witness:
  "have_lock 1 demo_path demo_locked \<and> lock_held 1 demo_path demo_locked \<and> sched demo_locked = []
   \<and> aquire_lock 1 demo_path True demo_locked = Some (Inr (), demo_locked)
   \<and> aquire_times 2 1 demo_path True demo_locked = Some (Inr (), demo_locked)
   \<and> release_lock 1 demo_path demo_locked
        = Some (Inr (), snd (the (release_lock 1 demo_path demo_locked)))
   \<and> \<not> have_lock 1 demo_path (snd (the (release_lock 1 demo_path demo_locked)))
   \<and> aquire_lock 1 demo_path True demo_world = Some (Inr (), demo_locked)
   \<and> registry demo_world 1 demo_path = None
   \<and> registry demo_locked = (registry demo_world)(1 := (registry demo_world 1)(demo_path \<mapsto> 3))"
  using reentrant_non_counting [where t = 1 and p = demo_path and w = demo_locked and b = True
      and n = 2]
    demo_locked_reached
  by (simp add: run_defs demo_world_def demo_locked_def demo_path_def lock_held_def
      numeral_2_eq_2 fun_eq_iff)


section \<open>Mutual exclusion\<close>

lemma makedirs_InrD: "makedirs d m w = Some (Inr u, w') \<Longrightarrow> \<exists>es. w' = w\<lparr>sched := es\<rparr>"
  by (auto simp: makedirs_def ret_def dest!: syscall_SomeD intro: exI [of _ "sched w"])

lemma fcntl_flock_InrD:
  "fcntl_flock d b w = Some (Inr u, w') \<Longrightarrow>
     \<exists>i. opened w d = Some i \<and> (flocks w i = None \<or> flocks w i = Some d)"
  by (auto simp: fcntl_flock_def dest!: syscall_SomeD split: option.splits if_splits)

lemma flock_or_close_InrD2:
  "flock_or_close d b w = Some (Inr u, w') \<Longrightarrow>
     \<exists>i. opened w d = Some i \<and> (flocks w i = None \<or> flocks w i = Some d)"
proof -
  assume "flock_or_close d b w = Some (Inr u, w')"
  then have "catch (fcntl_flock d b)
       (\<lambda>e. case e of OSError x \<Rightarrow> bnd (os_close d) (\<lambda>u. raise e) | _ \<Rightarrow> raise e) w
      = Some (Inr u, w')"
    by (simp add: flock_or_close_def)
  from catch_InrD [OF this] have "fcntl_flock d b w = Some (Inr u, w')"
  proof (elim disjE exE conjE)
    fix e w1
    assume "(case e of OSError x \<Rightarrow> bnd (os_close d) (\<lambda>u. raise e) | _ \<Rightarrow> raise e) w1
              = Some (Inr u, w')"
    then show ?thesis by (cases e) (auto simp: raise_def dest!: bnd_InrD)
  qed
  then show ?thesis by (rule fcntl_flock_InrD)
qed

lemma contended_lock_fd:
  assumes held: "lock_held t1 p w" and fresh: "opened w (next_fd w) = None"
  shows "lock_fd p False w \<noteq> Some (Inr d, w')"
proof
  assume "lock_fd p False w = Some (Inr d, w')"
  then obtain u wa d2 wb u2 wc where
    m: "makedirs (parent p) 504 w = Some (Inr u, wa)" and
    o: "os_open p wa = Some (Inr d2, wb)" and
    f: "flock_or_close d2 False wb = Some (Inr u2, wc)"
    unfolding lock_fd_def by (blast dest: bnd_InrD)
  from lock_heldD [OF held] obtain d1 i where
    h: "registry w t1 p = Some d1" "opened w d1 = Some i" "names (fs w) p = Some i"
       "flocks w i = Some d1"
    by blast
  from makedirs_InrD [OF m] obtain es where wa: "wa = w\<lparr>sched := es\<rparr>" ..
  from os_open_post [OF o] wa h
  have wb: "d2 = next_fd w" "opened wb d2 = Some i" "flocks wb = flocks w"
    by auto
  from flock_or_close_InrD2 [OF f] wb h have "d1 = d2" by auto
  with h wb fresh show False by simp
qed

lemma contended_try:
  assumes "lock_held t1 p w" "opened w (next_fd w) = None" "\<not> have_lock t2 p w"
  shows "try_aquire_lock t2 p w \<noteq> Some (Inr True, w')"
proof
  assume "try_aquire_lock t2 p w = Some (Inr True, w')"
  then have "catch (bnd (aquire_lock t2 p False) (\<lambda>u. ret True))
       (\<lambda>e. case e of OSError x \<Rightarrow> if x \<noteq> EAGAIN then raise e else ret False | _ \<Rightarrow> raise e) w
     = Some (Inr True, w')"
    by (simp add: try_aquire_lock_def)
  from catch_InrD [OF this]
  have "bnd (aquire_lock t2 p False) (\<lambda>u. ret True) w = Some (Inr True, w')"
  proof (elim disjE exE conjE)
    fix e w1
    assume "(case e of OSError x \<Rightarrow> if x \<noteq> EAGAIN then raise e else ret False | _ \<Rightarrow> raise e) w1
              = Some (Inr True, w')"
    then show ?thesis by (cases e) (auto simp: raise_def ret_def split: if_splits)
  qed
  then obtain u where "aquire_lock t2 p False w = Some (Inr u, w')"
    by (auto simp: ret_def dest!: bnd_InrD)
  with assms(3) have "bnd (lock_fd p False) (priv_set_lock t2 p) w = Some (Inr u, w')"
    by (simp add: aquire_lock_flat aquire_once_split)
  then obtain d w6 where "lock_fd p False w = Some (Inr d, w6)"
    by (blast dest: bnd_InrD)
  with contended_lock_fd [OF assms(1,2)] show False by blast
qed

lemma contended_try_calm:
  assumes "t1 \<noteq> t2" "lock_held t1 p w" "opened w (next_fd w) = None" "\<not> have_lock t2 p w"
    "sched w = []"
  shows "\<exists>w'. try_aquire_lock t2 p w = Some (Inr False, w') \<and> lock_held t1 p w'
           \<and> \<not> have_lock t2 p w' \<and> sched w' = []"
proof -
  from lock_heldD [OF assms(2)] obtain d1 i where
    h: "registry w t1 p = Some d1" "opened w d1 = Some i" "names (fs w) p = Some i"
       "flocks w i = Some d1"
    by blast
  with assms(3) have "d1 \<noteq> next_fd w" by auto
  with h assms show ?thesis
    by (simp add: run_defs Let_def lock_held_def)
qed

text \<open>
  C2. Calls are taken one after the other, each by its thread (or process: a descriptor
  stands for its open file description). While thread \<open>t1\<close> holds the lock of \<open>p\<close>, a
  non-blocking acquisition by another thread \<open>t2\<close> always returns and never returns
  true, whatever else happens to its operating-system calls; undisturbed it returns
  false and leaves the lock with \<open>t1\<close>. Once \<open>t1\<close> has released, the acquisition by \<open>t2\<close>
  returns true and \<open>t2\<close> holds the lock.
\<close>

theorem lock_mutual_exclusion:
  assumes "t1 \<noteq> t2" "lock_held t1 p w" "\<not> have_lock t2 p w" "opened w (next_fd w) = None"
  shows "try_aquire_lock t2 p w \<noteq> None
     \<and> (\<forall>r w'. try_aquire_lock t2 p w = Some (r, w') \<longrightarrow> r \<noteq> Inr True)
     \<and> (sched w = [] \<longrightarrow>
          (\<exists>w' w1 w2. try_aquire_lock t2 p w = Some (Inr False, w') \<and> lock_held t1 p w'
             \<and> release_lock t1 p w' = Some (Inr (), w1)
             \<and> try_aquire_lock t2 p w1 = Some (Inr True, w2)
             \<and> lock_held t2 p w2 \<and> \<not> have_lock t1 p w2))"
proof (intro conjI allI impI)
  show "try_aquire_lock t2 p w \<noteq> None" by (rule try_aquire_lock_total)
next
  fix r w' assume "try_aquire_lock t2 p w = Some (r, w')"
  with contended_try [OF assms(2,4,3)] show "r \<noteq> Inr True" by auto
next
  assume calm: "sched w = []"
  from contended_try_calm [OF assms(1,2,4,3) calm] obtain w' where
    t: "try_aquire_lock t2 p w = Some (Inr False, w')" and w': "lock_held t1 p w'"
      "\<not> have_lock t2 p w'" "sched w' = []"
    by blast
  from release_lock_calm [OF w'(1,3)] obtain w1 where
    r: "release_lock t1 p w' = Some (Inr (), w1)" and w1: "\<not> have_lock t1 p w1"
      "free_to_lock p w1" "sched w1 = []" "\<forall>t'. t' \<noteq> t1 \<longrightarrow> registry w1 t' = registry w' t'"
    by blast
  from w1(4) assms(1) w'(2) have n2: "\<not> have_lock t2 p w1"
    by (simp add: have_lock_def priv_has_lock_def)
  from aquire_lock_calm [OF w1(3) n2 w1(2), of False] obtain w2 where
    a: "aquire_lock t2 p False w1 = Some (Inr (), w2)" and w2: "lock_held t2 p w2"
      "registry w2 = (registry w1)(t2 := (registry w1 t2)(p \<mapsto> next_fd w1))"
    by blast
  from a have "try_aquire_lock t2 p w1 = Some (Inr True, w2)"
    by (simp add: try_aquire_lock_def catch_def bnd_def ret_def)
  moreover from w2(2) w1(1) assms(1) have "\<not> have_lock t1 p w2"
    by (simp add: have_lock_def priv_has_lock_def)
  ultimately show "\<exists>w' w1 w2. try_aquire_lock t2 p w = Some (Inr False, w') \<and> lock_held t1 p w'
             \<and> release_lock t1 p w' = Some (Inr (), w1)
             \<and> try_aquire_lock t2 p w1 = Some (Inr True, w2)
             \<and> lock_held t2 p w2 \<and> \<not> have_lock t1 p w2"
    using t w'(1) r w2(1) by blast
qed


theorem lock_mutual_exclusion_witness:
  "(1::nat) \<noteq> 2 \<and> lock_held 1 demo_path demo_locked \<and> \<not> have_lock 2 demo_path demo_locked
   \<and> opened demo_locked (next_fd demo_locked) = None
   \<and> try_aquire_lock 1 demo_path demo_world = Some (Inr True, demo_locked)
   \<and> fst (the (try_aquire_lock 2 demo_path demo_locked)) = Inr False
   \<and> fst (the (try_aquire_lock 2 demo_path
        (snd (the (release_lock 1 demo_path
          (snd (the (try_aquire_lock 2 demo_path demo_locked)))))))) = Inr True"
  using lock_mutual_exclusion [where ?t1.0 = 1 and ?t2.0 = 2 and p = demo_path and w = demo_locked]
  by (simp add: run_defs demo_world_def demo_locked_def demo_path_def lock_held_def fun_eq_iff)

section \<open>Loading what is not there\<close>

lemma priv_load_unlocked_default:
  assumes "visible (fs w) p = None \<or> visible (fs w) p = Some []" "undisturbed w"
  shows "priv_load_bytes_from_file t p False w = Some (Inr [], w\<lparr>sched := tl (sched w)\<rparr>)"
  using assms
  by (auto simp: priv_load_bytes_from_file_def when_lock_def bnd_def ret_def catch_def raise_def
      read_bytes_def syscall_def visible_def undisturbed_def
      split: option.splits list.splits)

lemma priv_load_unlocked_failure:
  assumes "sched w = Fail c n # es"
  shows "priv_load_bytes_from_file t p False w =
     Some (Inl (MKGeneralException ''Cannot read file'' (Some (p, OSError (EOTHER c)))),
           w\<lparr>sched := es\<rparr>)"
  using assms
  by (simp add: priv_load_bytes_from_file_def when_lock_def bnd_def ret_def catch_def raise_def
      read_bytes_def syscall_def)

lemma priv_load_locked_default:
  assumes "visible (fs w) p = None \<or> visible (fs w) p = Some []" "sched w = []"
    "have_lock t p w \<or> free_to_lock p w"
  shows "\<exists>w'. priv_load_bytes_from_file t p True w = Some (Inr [], w')"
proof -
  have "\<exists>w1. aquire_lock t p True w = Some (Inr (), w1) \<and> sched w1 = []
          \<and> (visible (fs w1) p = None \<or> visible (fs w1) p = Some [])"
  proof (cases "have_lock t p w")
    case True
    with assms show ?thesis by (simp add: aquire_lock_reentrant)
  next
    case False
    with assms have "free_to_lock p w" by simp
    from aquire_lock_calm [OF assms(2) False this, of True] assms(1) show ?thesis
      by auto
  qed
  then obtain w1 where "aquire_lock t p True w = Some (Inr (), w1)" "sched w1 = []"
    "visible (fs w1) p = None \<or> visible (fs w1) p = Some []"
    by blast
  then show ?thesis
    by (auto simp: priv_load_bytes_from_file_def when_lock_def bnd_def ret_def catch_def
        raise_def read_bytes_def syscall_def visible_def split: option.splits)
qed

text \<open>
  C8. Where the path names no file, or an empty one, and the read is not disturbed,
  \<open>load_bytes_from_file\<close>, \<open>load_text_from_file\<close> and \<open>load_object_from_file\<close> return the
  default of the caller and raise nothing (the text and object loaders given that the
  empty byte string decodes to the empty text); so with \<open>lock=False\<close>, where the state
  stays what it was but for the event consumed, and so with \<open>lock=True\<close> where the lock
  is free or already the thread's own. Where the read fails for another reason, the
  failure propagates as MKGeneralException "Cannot read file" and no default is returned.
\<close>

theorem missing_or_empty_file_gives_default:
  "((visible (fs w) p = None \<or> visible (fs w) p = Some []) \<and> undisturbed w \<longrightarrow>
      load_bytes_from_file t p dflt_b False w = Some (Inr dflt_b, w\<lparr>sched := tl (sched w)\<rparr>)
      \<and> (utf8_decode L [] = Inr [] \<longrightarrow>
           load_text_from_file L t p dflt_s False w
             = Some (Inr dflt_s, w\<lparr>sched := tl (sched w)\<rparr>)
           \<and> load_object_from_file L t p dflt_v False w
             = Some (Inr dflt_v, w\<lparr>sched := tl (sched w)\<rparr>)))
   \<and> ((visible (fs w) p = None \<or> visible (fs w) p = Some []) \<and> sched w = []
        \<and> (have_lock t p w \<or> free_to_lock p w) \<longrightarrow>
      (\<exists>w'. load_bytes_from_file t p dflt_b True w = Some (Inr dflt_b, w'))
      \<and> (utf8_decode L [] = Inr [] \<longrightarrow>
           (\<exists>w'. load_text_from_file L t p dflt_s True w = Some (Inr dflt_s, w'))
           \<and> (\<exists>w'. load_object_from_file L t p dflt_v True w = Some (Inr dflt_v, w'))))
   \<and> (sched w = Fail c n # es \<longrightarrow>
      load_bytes_from_file t p dflt_b False w
        = Some (Inl (MKGeneralException ''Cannot read file'' (Some (p, OSError (EOTHER c)))),
                w\<lparr>sched := es\<rparr>)
      \<and> load_text_from_file L t p dflt_s False w
        = Some (Inl (MKGeneralException ''Cannot read file'' (Some (p, OSError (EOTHER c)))),
                w\<lparr>sched := es\<rparr>)
      \<and> load_object_from_file L t p dflt_v False w
        = Some (Inl (MKGeneralException ''Cannot read file'' (Some (p, OSError (EOTHER c)))),
                w\<lparr>sched := es\<rparr>))"
proof (intro conjI impI)
  assume a: "(visible (fs w) p = None \<or> visible (fs w) p = Some []) \<and> undisturbed w"
  then have l: "priv_load_bytes_from_file t p False w = Some (Inr [], w\<lparr>sched := tl (sched w)\<rparr>)"
    by (simp add: priv_load_unlocked_default)
  then show "load_bytes_from_file t p dflt_b False w
      = Some (Inr dflt_b, w\<lparr>sched := tl (sched w)\<rparr>)"
    by (simp add: load_bytes_from_file_def bnd_def ret_def)
  assume "utf8_decode L [] = Inr []"
  with l show "load_text_from_file L t p dflt_s False w
             = Some (Inr dflt_s, w\<lparr>sched := tl (sched w)\<rparr>)"
    "load_object_from_file L t p dflt_v False w
             = Some (Inr dflt_v, w\<lparr>sched := tl (sched w)\<rparr>)"
    by (simp_all add: load_text_from_file_def load_object_from_file_def bnd_def ret_def lift_def)
next
  assume a: "(visible (fs w) p = None \<or> visible (fs w) p = Some []) \<and> sched w = []
        \<and> (have_lock t p w \<or> free_to_lock p w)"
  then obtain w' where l: "priv_load_bytes_from_file t p True w = Some (Inr [], w')"
    using priv_load_locked_default [of w p t] by blast
  then show "\<exists>w'. load_bytes_from_file t p dflt_b True w = Some (Inr dflt_b, w')"
    by (simp add: load_bytes_from_file_def bnd_def ret_def)
  assume "utf8_decode L [] = Inr []"
  with l show "\<exists>w'. load_text_from_file L t p dflt_s True w = Some (Inr dflt_s, w')"
    "\<exists>w'. load_object_from_file L t p dflt_v True w = Some (Inr dflt_v, w')"
    by (simp_all add: load_text_from_file_def load_object_from_file_def bnd_def ret_def lift_def)
next
  assume "sched w = Fail c n # es"
  then have l: "priv_load_bytes_from_file t p False w =
     Some (Inl (MKGeneralException ''Cannot read file'' (Some (p, OSError (EOTHER c)))),
           w\<lparr>sched := es\<rparr>)"
    by (rule priv_load_unlocked_failure)
  then show "load_bytes_from_file t p dflt_b False w
        = Some (Inl (MKGeneralException ''Cannot read file'' (Some (p, OSError (EOTHER c)))),
                w\<lparr>sched := es\<rparr>)"
    "load_text_from_file L t p dflt_s False w
        = Some (Inl (MKGeneralException ''Cannot read file'' (Some (p, OSError (EOTHER c)))),
                w\<lparr>sched := es\<rparr>)"
    "load_object_from_file L t p dflt_v False w
        = Some (Inl (MKGeneralException ''Cannot read file'' (Some (p, OSError (EOTHER c)))),
                w\<lparr>sched := es\<rparr>)"
    by (simp_all add: load_bytes_from_file_def load_text_from_file_def
        load_object_from_file_def bnd_def)
qed

theorem missing_or_empty_file_gives_default_witness:
  "visible (fs bare_world) demo_path = None \<and> undisturbed bare_world
   \<and> sched bare_world = [] \<and> free_to_lock demo_path bare_world
   \<and> utf8_decode demo_lib [] = Inr []
   \<and> load_bytes_from_file 1 demo_path ''dflt'' False bare_world = Some (Inr ''dflt'', bare_world)
   \<and> load_text_from_file demo_lib 1 demo_path [100] False bare_world
        = Some (Inr [100], bare_world)
   \<and> load_object_from_file demo_lib 1 demo_path 42 False bare_world = Some (Inr 42, bare_world)
   \<and> fst (the (load_bytes_from_file 1 demo_path ''dflt'' True bare_world)) = Inr ''dflt''
   \<and> visible (fs (demo_world\<lparr>fs := (fs demo_world)\<lparr>data := (\<lambda>i. [])\<rparr>\<rparr>)) demo_path = Some []
   \<and> load_object_from_file demo_lib 1 demo_path 42 False
        (demo_world\<lparr>fs := (fs demo_world)\<lparr>data := (\<lambda>i. [])\<rparr>\<rparr>)
        = Some (Inr 42, demo_world\<lparr>fs := (fs demo_world)\<lparr>data := (\<lambda>i. [])\<rparr>\<rparr>)
   \<and> load_bytes_from_file 1 demo_path ''dflt'' False (demo_world\<lparr>sched := [Fail 5 0]\<rparr>)
        = Some (Inl (MKGeneralException ''Cannot read file''
                       (Some (demo_path, OSError (EOTHER 5)))), demo_world)"
  using missing_or_empty_file_gives_default [where w = bare_world and p = demo_path and t = 1
      and L = demo_lib and dflt_b = "''dflt''" and dflt_s = "[100]" and dflt_v = 42]
  by (simp add: load_defs run_defs bare_world_def demo_world_def demo_path_def demo_lib_def
      ascii_decode_def visible_def undisturbed_def free_to_lock_def)

section \<open>Relations between the state before and after\<close>

lemma logged_refl: "logged P w w"
  by (simp add: logged_def)

lemma logged_trans: "logged P w w1 \<Longrightarrow> logged P w1 w2 \<Longrightarrow> logged P w w2"
  unfolding logged_def
proof (elim exE conjE)
  fix xs ys
  assume a: "hist w1 = hist w @ xs" "fs w1 = last (fs w # xs)" "list_all P xs"
    and b: "hist w2 = hist w1 @ ys" "fs w2 = last (fs w1 # ys)" "list_all P ys"
  have "fs w2 = last (fs w # xs @ ys)"
    using a(2) b(2) by (cases ys rule: rev_cases) (simp_all add: last_append)
  with a b show "\<exists>zs. hist w2 = hist w @ zs \<and> fs w2 = last (fs w # zs) \<and> list_all P zs"
    by (intro exI [of _ "xs @ ys"]) simp
qed

lemma logged_mono: "(\<And>s. P s \<Longrightarrow> Q s) \<Longrightarrow> logged P w w' \<Longrightarrow> logged Q w w'"
  by (auto simp: logged_def list_all_iff)

lemma logged_last: "logged P w w' \<Longrightarrow> P (fs w) \<Longrightarrow> P (fs w')"
  by (auto simp: logged_def list_all_iff split: if_splits)

lemma logged_silent: "fs w' = fs w \<Longrightarrow> hist w' = hist w \<Longrightarrow> logged P w w'"
  by (simp add: logged_def)

lemma logged_one: "hist w' = hist w @ [s] \<Longrightarrow> fs w' = s \<Longrightarrow> P s \<Longrightarrow> logged P w w'"
  by (simp add: logged_def)

lemma logged_rt: "reflp (logged P)" "transp (logged P)"
  by (auto simp: reflp_def transp_def logged_refl intro: logged_trans)

lemma under_rt: "reflp R \<Longrightarrow> reflp (under I R)" "transp R \<Longrightarrow> transp (under I R)"
  by (auto simp: reflp_def transp_def under_def)

lemma names_kept_rt: "reflp (names_kept X)" "transp (names_kept X)"
  by (auto simp: reflp_def transp_def names_kept_def)

lemma names_kept_mono: "names_kept X w w' \<Longrightarrow> X \<subseteq> Y \<Longrightarrow> names_kept Y w w'"
  by (auto simp: names_kept_def)

lemma names_kept_trans: "names_kept X w w1 \<Longrightarrow> names_kept Y w1 w2 \<Longrightarrow> names_kept (X \<union> Y) w w2"
  by (auto simp: names_kept_def)

section \<open>The operating-system calls that leave the files alone\<close>

lemma quiet_rt: "reflp quiet" "transp quiet"
  by (auto simp: reflp_def transp_def quiet_def)

lemma keeps_quiet_prims:
  "keeps quiet (makedirs d m)" "keeps quiet (os_close fd)" "keeps quiet (sameopenfile fd fd')"
  "keeps quiet (fcntl_flock fd b)" "keeps quiet (tmp_close tmp)" "keeps quiet (read_bytes p)"
  "keeps quiet (priv_set_lock t p fd)" "keeps quiet (priv_del_lock t p)"
  by (auto simp: keeps_def quiet_def makedirs_def os_close_def sameopenfile_def
      fcntl_flock_def tmp_close_def read_bytes_def priv_set_lock_def priv_del_lock_def ret_def
      dest!: syscall_SomeD split: option.splits if_splits)

lemma keeps_quiet_flock_or_close: "keeps quiet (flock_or_close fd b)"
  unfolding flock_or_close_def
  apply (rule keeps_catch [OF quiet_rt(2) keeps_quiet_prims(4)])
  subgoal for e
    by (cases e) (auto intro!: keeps_bnd keeps_raise quiet_rt keeps_quiet_prims)
  done

lemma keeps_quiet_release_lock: "keeps quiet (release_lock t p)"
proof -
  have k: "keeps quiet (bnd (catch (os_close d)
                 (\<lambda>e. case e of OSError x \<Rightarrow> if x \<noteq> EBADF then raise e else ret ()
                      | _ \<Rightarrow> raise e))
              (\<lambda>u. priv_del_lock t p))" for d
    apply (intro keeps_bnd keeps_catch quiet_rt keeps_quiet_prims)
    subgoal for e by (cases e) (auto intro!: keeps_raise keeps_ret quiet_rt)
    done
  show ?thesis
    unfolding keeps_def
  proof (intro allI impI)
    fix w r w' assume "release_lock t p w = Some (r, w')"
    then show "quiet w w'"
      using k
      by (auto simp: release_lock_def ret_def quiet_def keeps_def
          split: if_splits option.splits)
  qed
qed

lemma quiet_logged: "quiet w w' \<Longrightarrow> logged P w w'"
  by (simp add: quiet_def logged_silent)

lemma quiet_names_kept: "quiet w w' \<Longrightarrow> names_kept X w w'"
  by (simp add: quiet_def names_kept_def)


section \<open>Phase 1: the lock\<close>

lemma quiet_unrenamed: "quiet w w' \<Longrightarrow> unrenamed p prior w \<Longrightarrow> unrenamed p prior w'"
  by (auto simp: quiet_def unrenamed_def fresh_for_def split: option.splits)

lemma quiet_keeps_under:
  "keeps quiet m \<Longrightarrow> keeps (under (unrenamed p prior) (logged P)) m"
  by (erule keeps_weaken) (auto simp: under_def quiet_logged quiet_unrenamed)

lemma quiet_keeps_names: "keeps quiet m \<Longrightarrow> keeps (names_kept X) m"
  by (erule keeps_weaken) (auto simp: quiet_names_kept)

lemma os_open_phase: "keeps (under (unrenamed p prior) (logged (not_yet p prior))) (os_open p)"
  unfolding keeps_def under_def
proof (intro allI impI)
  fix w r w'
  assume run: "os_open p w = Some (r, w')" and inv: "unrenamed p prior w"
  show "unrenamed p prior w' \<and> logged (not_yet p prior) w w'"
  proof (cases "names (fs w) p")
    case (Some i)
    with run have "quiet w w'"
      by (auto simp: quiet_def os_open_def Let_def dest!: syscall_SomeD)
    with inv show ?thesis
      by (simp add: quiet_unrenamed quiet_logged)
  next
    case None
    let ?s = "(fs w)\<lparr>names := (names (fs w))(p \<mapsto> next_ino w),
                    data := (data (fs w))(next_ino w := []),
                    perms := (perms (fs w))(next_ino w := 432)\<rparr>"
    from None inv have prior: "prior = None"
      by (auto simp: unrenamed_def not_yet_def visible_def)
    from run None have
      "quiet w w'
       \<or> (fs w' = ?s \<and> hist w' = hist w @ [?s] \<and> next_ino w' = Suc (next_ino w))"
      by (auto simp: quiet_def os_open_def Let_def create_file_def set_fs_def
          dest!: syscall_SomeD)
    then show ?thesis
    proof
      assume "quiet w w'"
      with inv show ?thesis by (simp add: quiet_unrenamed quiet_logged)
    next
      assume c: "fs w' = ?s \<and> hist w' = hist w @ [?s] \<and> next_ino w' = Suc (next_ino w)"
      have "not_yet p prior ?s" using prior by (simp add: not_yet_def visible_def)
      with c show ?thesis
        by (auto simp: unrenamed_def fresh_for_def intro: logged_one)
    qed
  qed
qed

lemma os_open_names: "keeps (names_kept {p}) (os_open p)"
  by (auto simp: keeps_def names_kept_def os_open_def Let_def create_file_def set_fs_def
      dest!: syscall_SomeD split: option.splits)

lemmas lock_quiet = keeps_quiet_prims(1-4) keeps_quiet_flock_or_close

lemma lock_fd_phase: "keeps (under (unrenamed p prior) (logged (not_yet p prior))) (lock_fd p b)"
  unfolding lock_fd_def
  by (intro keeps_bnd keeps_ret under_rt logged_rt os_open_phase
      lock_quiet [THEN quiet_keeps_under])

lemma lock_fd_names: "keeps (names_kept {p}) (lock_fd p b)"
  unfolding lock_fd_def
  by (intro keeps_bnd keeps_ret names_kept_rt os_open_names lock_quiet [THEN quiet_keeps_names])

lemma keeps_aquire_lock:
  assumes "reflp R" "transp R" "keeps R (lock_fd p b)" "\<And>d. keeps R (priv_set_lock t p d)"
  shows "keeps R (aquire_lock t p b)"
proof -
  have "keeps R (bnd (lock_fd p b) (priv_set_lock t p))"
    using assms by (intro keeps_bnd)
  with assms(1) show ?thesis
    by (auto simp: keeps_def aquire_lock_flat aquire_once_split ret_def reflp_def
        split: if_splits)
qed

lemma aquire_lock_phase:
  "keeps (under (unrenamed p prior) (logged (not_yet p prior))) (aquire_lock t p b)"
  by (intro keeps_aquire_lock under_rt logged_rt lock_fd_phase
      keeps_quiet_prims(7) [THEN quiet_keeps_under])

lemma aquire_lock_names: "keeps (names_kept {p}) (aquire_lock t p b)"
  by (intro keeps_aquire_lock names_kept_rt lock_fd_names
      keeps_quiet_prims(7) [THEN quiet_keeps_names])

section \<open>Phase 2: the temporary file\<close>

lemma fresh_nameD:
  "fresh_name ns d pre ss = Some (q, ss') \<Longrightarrow>
     ns q = None \<and> parent q = d \<and> (\<exists>s. name q = pre @ s)"
  by (induction ss) (auto split: if_splits)

lemma NamedTemporaryFile_Inl:
  "NamedTemporaryFile d pre w = Some (Inl e, w') \<Longrightarrow> quiet w w'"
  by (auto simp: NamedTemporaryFile_def quiet_def create_file_def set_fs_def
      dest!: syscall_SomeD split: option.splits)

lemma NamedTemporaryFile_Inr:
  assumes "NamedTemporaryFile d pre w = Some (Inr tmp, w')"
  shows "names (fs w) (tmp_name tmp) = None \<and> parent (tmp_name tmp) = d
     \<and> (\<exists>s. name (tmp_name tmp) = pre @ s) \<and> tmp_ino tmp = next_ino w
     \<and> fs w' = (fs w)\<lparr>names := (names (fs w))(tmp_name tmp \<mapsto> next_ino w),
                      data := (data (fs w))(next_ino w := []),
                      perms := (perms (fs w))(next_ino w := 384)\<rparr>
     \<and> hist w' = hist w @ [fs w']"
  using assms
  by (auto simp: NamedTemporaryFile_def create_file_def set_fs_def
      dest!: syscall_SomeD fresh_nameD split: option.splits)

lemma tmp_name_differs: "name q = CHR ''.'' # name p @ ''.new'' @ s \<Longrightarrow> q \<noteq> p"
  by auto


section \<open>Phase 3: filling the temporary file\<close>

lemma visible_same:
  "names s' p = names s p \<Longrightarrow> (\<And>i. names s p = Some i \<Longrightarrow> data s' i = data s i) \<Longrightarrow>
     visible s' p = visible s p"
  by (auto simp: visible_def split: option.splits)

lemma quiet_keeps_filling:
  "keeps quiet m \<Longrightarrow> keeps (under (filling p V tmp) (logged P)) m"
  by (erule keeps_weaken) (auto simp: under_def quiet_logged quiet_def filling_def)

lemma os_chmod_phase:
  "keeps (under (filling p V tmp) (logged (shown p V))) (os_chmod q mode)"
  unfolding keeps_def under_def
proof (intro allI impI)
  fix w r w'
  assume run: "os_chmod q mode w = Some (r, w')" and inv: "filling p V tmp w"
  from run have same: "names (fs w') = names (fs w)" "data (fs w') = data (fs w)"
    and h: "quiet w w' \<or> hist w' = hist w @ [fs w']"
    by (auto simp: os_chmod_def quiet_def set_fs_def dest!: syscall_SomeD split: option.splits)
  from same have "visible (fs w') p = visible (fs w) p" by (intro visible_same) simp_all
  with same inv have f: "filling p V tmp w'"
    by (simp add: filling_def shown_def)
  from h have "logged (shown p V) w w'"
  proof
    assume "quiet w w'" then show ?thesis by (rule quiet_logged)
  next
    assume "hist w' = hist w @ [fs w']"
    with f show ?thesis by (auto simp: filling_def intro: logged_one)
  qed
  with f show "filling p V tmp w' \<and> logged (shown p V) w w'" ..
qed

lemma tmp_write_cases:
  "tmp_write tmp content w = Some (r, w') \<Longrightarrow>
     (quiet w w' \<and> (\<exists>e. r = Inl e))
     \<or> (\<exists>c. fs w' = (fs w)\<lparr>data := (data (fs w))(tmp_ino tmp := c)\<rparr>
            \<and> hist w' = hist w @ [fs w'] \<and> (r = Inr () \<longrightarrow> c = content))"
  by (auto simp: tmp_write_def syscall_def quiet_def set_fs_def
      split: list.splits event.splits)

lemma tmp_write_phase:
  "keeps (under (filling p V tmp) (logged (shown p V))) (tmp_write tmp content)"
  unfolding keeps_def under_def
proof (intro allI impI)
  fix w r w'
  assume run: "tmp_write tmp content w = Some (r, w')" and inv: "filling p V tmp w"
  from tmp_write_cases [OF run]
  show "filling p V tmp w' \<and> logged (shown p V) w w'"
  proof (elim disjE exE conjE)
    assume "quiet w w'"
    with inv show ?thesis by (simp add: quiet_def filling_def logged_silent)
  next
    fix c assume c: "fs w' = (fs w)\<lparr>data := (data (fs w))(tmp_ino tmp := c)\<rparr>"
      "hist w' = hist w @ [fs w']"
    with inv have "visible (fs w') p = visible (fs w) p"
      by (intro visible_same) (auto simp: filling_def)
    with c inv have "filling p V tmp w'"
      by (simp add: filling_def shown_def)
    with c show ?thesis by (auto simp: filling_def intro: logged_one)
  qed
qed

lemma with_tmp_phase:
  "keeps (under (filling p V tmp) (logged (shown p V))) (with_tmp tmp content mode)"
  unfolding with_tmp_def
  by (intro keeps_fin keeps_bnd under_rt logged_rt os_chmod_phase tmp_write_phase
      keeps_quiet_prims(5) [THEN quiet_keeps_filling])

lemma with_tmp_names: "keeps (names_kept {}) (with_tmp tmp content mode)"
proof -
  have "keeps (names_kept {}) (os_chmod q mode)" for q
    by (auto simp: keeps_def names_kept_def os_chmod_def set_fs_def
        dest!: syscall_SomeD split: option.splits)
  moreover have "keeps (names_kept {}) (tmp_write tmp content)"
    by (auto simp: keeps_def names_kept_def quiet_def dest!: tmp_write_cases)
  ultimately show ?thesis
    unfolding with_tmp_def
    by (intro keeps_fin keeps_bnd names_kept_rt keeps_quiet_prims(5) [THEN quiet_keeps_names])
qed

lemma with_tmp_Inr:
  assumes "with_tmp tmp content mode w = Some (Inr u, w')"
  shows "data (fs w') (tmp_ino tmp) = content"
proof -
  from assms have "fin (bnd (os_chmod (tmp_name tmp) mode) (\<lambda>u. tmp_write tmp content))
      (tmp_close tmp) w = Some (Inr u, w')"
    by (simp add: with_tmp_def)
  from fin_SomeD [OF this] obtain w1 where
    b: "bnd (os_chmod (tmp_name tmp) mode) (\<lambda>u. tmp_write tmp content) w = Some (Inr u, w1)"
    and c: "tmp_close tmp w1 = Some (Inr (), w')"
    by auto
  from bnd_InrD [OF b] obtain w0 where "tmp_write tmp content w0 = Some (Inr u, w1)" by blast
  from tmp_write_cases [OF this] have "data (fs w1) (tmp_ino tmp) = content" by auto
  moreover from c keeps_quiet_prims(5) [of tmp] have "quiet w1 w'" by (auto simp: keeps_def)
  ultimately show ?thesis by (simp add: quiet_def)
qed

section \<open>Phases 4 and 5: the rename, and the handler\<close>

lemma os_rename_cases:
  "os_rename q p w = Some (r, w') \<Longrightarrow>
     (quiet w w' \<and> (\<exists>e. r = Inl e))
     \<or> (r = Inr () \<and> (\<exists>i. names (fs w) q = Some i
           \<and> fs w' = (fs w)\<lparr>names := ((names (fs w))(q := None))(p \<mapsto> i)\<rparr>
           \<and> hist w' = hist w @ [fs w']))"
  by (auto simp: os_rename_def quiet_def set_fs_def dest!: syscall_SomeD split: option.splits)

lemma sig_exn_simps [simp]:
  "os_or_signal (sig_exn s)" "sig_exn s \<noteq> OSError x" "sig_exn s \<noteq> MKGeneralException m c"
  by (cases s; simp add: sig_exn_def)+

lemma os_unlink_cases:
  "os_unlink q w = Some (r, w') \<Longrightarrow>
     (quiet w w' \<and> (\<exists>e. r = Inl e \<and> os_or_signal e
                       \<and> (e = OSError ENOENT \<longrightarrow> names (fs w) q = None)))
     \<or> (r = Inr () \<and> fs w' = (fs w)\<lparr>names := (names (fs w))(q := None)\<rparr>
           \<and> hist w' = hist w @ [fs w'])"
  by (auto simp: os_unlink_def quiet_def set_fs_def
      dest!: syscall_SomeD split: option.splits)

lemma save_except_raises: "save_except p tp e w = Some (r, w') \<Longrightarrow> \<exists>e'. r = Inl e'"
  by (cases r) (auto simp: save_except_def raise_def dest!: bnd_InrD split: if_splits)

lemma save_except_None: "save_except p None e w = Some (r, w') \<Longrightarrow> w' = w"
  by (auto simp: save_except_def raise_def ret_def bnd_def catch_def split: if_splits)

lemma save_except_Some:
  assumes "save_except p (Some q) e w = Some (r, w')"
  shows "(quiet w w' \<and> (\<forall>m c. r = Inl (MKGeneralException m c) \<longrightarrow> names (fs w) q = None))
     \<or> (fs w' = (fs w)\<lparr>names := (names (fs w))(q := None)\<rparr> \<and> hist w' = hist w @ [fs w'])"
proof (cases "e = MKTerminate \<or> e = MKTimeout")
  case True
  with assms show ?thesis by (auto simp: save_except_def raise_def quiet_def)
next
  case False
  let ?h = "\<lambda>e2. case e2 of OSError x \<Rightarrow> if x \<noteq> ENOENT then raise e2 else ret ()
                  | _ \<Rightarrow> raise e2"
  from assms False have "bnd (catch (os_unlink q) ?h)
      (\<lambda>u. raise (MKGeneralException ''Cannot write configuration file'' (Some (p, e)))) w
      = Some (r, w')"
    by (simp add: save_except_def)
  from bnd_SomeD [OF this] show ?thesis
  proof (elim disjE exE conjE)
    fix e1 assume c: "catch (os_unlink q) ?h w = Some (Inl e1, w')" and r: "r = Inl e1"
    from catch_InlD [OF c] obtain e0 w1 where u: "os_unlink q w = Some (Inl e0, w1)"
      and h: "?h e0 w1 = Some (Inl e1 :: exn + unit, w')"
      by blast
    from h have "w1 = w' \<and> e1 = e0"
      by (cases e0) (auto simp: raise_def ret_def split: if_splits)
    with os_unlink_cases [OF u] r show ?thesis
      by (cases e0) auto
  next
    fix x w1
    assume c: "catch (os_unlink q) ?h w = Some (Inr x, w1)"
      and "raise (MKGeneralException ''Cannot write configuration file'' (Some (p, e))) w1
             = Some (r, w')"
    then have w1: "w1 = w'" by (simp add: raise_def)
    from catch_InrD [OF c] show ?thesis
    proof (elim disjE exE conjE)
      assume "os_unlink q w = Some (Inr x, w1)"
      from os_unlink_cases [OF this] w1 show ?thesis by auto
    next
      fix e0 w0 assume u: "os_unlink q w = Some (Inl e0, w0)" and h: "?h e0 w0 = Some (Inr x, w1)"
      from h have "e0 = OSError ENOENT \<and> w0 = w1"
        by (cases e0) (auto simp: raise_def ret_def split: if_splits)
      with os_unlink_cases [OF u] w1 show ?thesis by auto
    qed
  qed
qed


section \<open>The whole of the \<open>try\<close> statement\<close>

lemma save_attempt_cases:
  assumes "save_attempt t p content mode w = Some (r, w')"
  obtains
    (lock) e w1 where "aquire_lock t p True w = Some (Inl e, w1)"
      "save_except p None e w1 = Some (r, w')"
  | (tmp) w1 e w2 where "aquire_lock t p True w = Some (Inr (), w1)"
      "NamedTemporaryFile (parent p) (CHR ''.'' # name p @ ''.new'') w1 = Some (Inl e, w2)"
      "save_except p None e w2 = Some (r, w')"
  | (fill) w1 tmp w2 e w3 where "aquire_lock t p True w = Some (Inr (), w1)"
      "NamedTemporaryFile (parent p) (CHR ''.'' # name p @ ''.new'') w1 = Some (Inr tmp, w2)"
      "with_tmp tmp content mode w2 = Some (Inl e, w3)"
      "save_except p (Some (tmp_name tmp)) e w3 = Some (r, w')"
  | (rename) w1 tmp w2 w3 e w4 where "aquire_lock t p True w = Some (Inr (), w1)"
      "NamedTemporaryFile (parent p) (CHR ''.'' # name p @ ''.new'') w1 = Some (Inr tmp, w2)"
      "with_tmp tmp content mode w2 = Some (Inr (), w3)"
      "os_rename (tmp_name tmp) p w3 = Some (Inl e, w4)"
      "save_except p (Some (tmp_name tmp)) e w4 = Some (r, w')"
  | (renamed) w1 tmp w2 w3 where "aquire_lock t p True w = Some (Inr (), w1)"
      "NamedTemporaryFile (parent p) (CHR ''.'' # name p @ ''.new'') w1 = Some (Inr tmp, w2)"
      "with_tmp tmp content mode w2 = Some (Inr (), w3)"
      "os_rename (tmp_name tmp) p w3 = Some (Inr (), w')" "r = Inr ()"
proof (cases "aquire_lock t p True w")
  case None
  with assms show ?thesis by (simp add: save_attempt_def save_try_def)
next
  case (Some a)
  obtain ra w1 where a: "a = (ra, w1)" by (cases a)
  show ?thesis
  proof (cases ra)
    case (Inl e)
    with Some a assms show ?thesis
      by (intro lock [of e w1]) (simp_all add: save_attempt_def save_try_def)
  next
    case (Inr u)
    with Some a have l: "aquire_lock t p True w = Some (Inr (), w1)" by simp
    let ?ntf = "NamedTemporaryFile (parent p) (CHR ''.'' # name p @ ''.new'')"
    show ?thesis
    proof (cases "?ntf w1")
      case None
      with l assms show ?thesis by (simp add: save_attempt_def save_try_def)
    next
      case (Some b)
      obtain rb w2 where b: "b = (rb, w2)" by (cases b)
      show ?thesis
      proof (cases rb)
        case (Inl e)
        with Some b l assms show ?thesis
          by (intro tmp [of w1 e w2]) (simp_all add: save_attempt_def save_try_def)
      next
        case (Inr tmp)
        with Some b have n: "?ntf w1 = Some (Inr tmp, w2)" by simp
        show ?thesis
        proof (cases "with_tmp tmp content mode w2")
          case None
          with l n assms show ?thesis by (simp add: save_attempt_def save_try_def bnd_def)
        next
          case (Some c)
          obtain rc w3 where c: "c = (rc, w3)" by (cases c)
          show ?thesis
          proof (cases rc)
            case (Inl e)
            with Some c l n assms show ?thesis
              by (intro fill [of w1 tmp w2 e w3])
                 (simp_all add: save_attempt_def save_try_def bnd_def)
          next
            case (Inr u)
            with Some c have f: "with_tmp tmp content mode w2 = Some (Inr (), w3)" by simp
            show ?thesis
            proof (cases "os_rename (tmp_name tmp) p w3")
              case None
              with l n f assms show ?thesis
                by (simp add: save_attempt_def save_try_def bnd_def)
            next
              case (Some d)
              obtain rd w4 where d: "d = (rd, w4)" by (cases d)
              show ?thesis
              proof (cases rd)
                case (Inl e)
                with Some d l n f assms show ?thesis
                  by (intro rename [of w1 tmp w2 w3 e w4])
                     (simp_all add: save_attempt_def save_try_def bnd_def)
              next
                case (Inr u)
                with Some d l n f assms show ?thesis
                  by (intro renamed [of w1 tmp w2 w3])
                     (simp_all add: save_attempt_def save_try_def bnd_def)
              qed
            qed
          qed
        qed
      qed
    qed
  qed
qed


lemma tmp_facts:
  assumes "NamedTemporaryFile (parent p) (CHR ''.'' # name p @ ''.new'') w1 = Some (Inr tmp, w2)"
  shows "tmp_name tmp \<noteq> p" "names (fs w1) (tmp_name tmp) = None"
    "names (fs w2) = (names (fs w1))(tmp_name tmp \<mapsto> tmp_ino tmp)"
    "tmp_ino tmp = next_ino w1" "hist w2 = hist w1 @ [fs w2]"
    "data (fs w2) = (data (fs w1))(tmp_ino tmp := [])"
  using NamedTemporaryFile_Inr [OF assms] by (auto dest: tmp_name_differs)

lemma tmp_filling:
  assumes n: "NamedTemporaryFile (parent p) (CHR ''.'' # name p @ ''.new'') w1 = Some (Inr tmp, w2)"
    and fr: "fresh_for p w1" and v: "shown p V (fs w1)"
  shows "filling p V tmp w2" "logged (shown p V) w1 w2"
proof -
  note f = tmp_facts [OF n]
  from fr have fresh: "\<And>j. names (fs w1) p = Some j \<Longrightarrow> j < next_ino w1"
    by (auto simp: fresh_for_def)
  have "visible (fs w2) p = visible (fs w1) p"
  proof (rule visible_same)
    show "names (fs w2) p = names (fs w1) p" using f by simp
    fix j assume "names (fs w1) p = Some j"
    from fresh [OF this] f show "data (fs w2) j = data (fs w1) j" by simp
  qed
  with v have ny: "shown p V (fs w2)" by (simp add: shown_def)
  moreover from f fresh have "names (fs w2) p \<noteq> Some (tmp_ino tmp)" by auto
  ultimately show "filling p V tmp w2" using f by (simp add: filling_def)
  from ny f show "logged (shown p V) w1 w2" by (auto intro: logged_one)
qed

lemma save_except_shown:
  assumes "save_except p tp e w = Some (r, w')" "\<And>q. tp = Some q \<Longrightarrow> q \<noteq> p"
    "shown p V (fs w)"
  shows "logged (shown p V) w w'"
proof (cases tp)
  case None
  with assms show ?thesis by (auto dest: save_except_None simp: logged_refl)
next
  case (Some q)
  with assms have q: "q \<noteq> p" and run: "save_except p (Some q) e w = Some (r, w')" by auto
  from save_except_Some [OF run] show ?thesis
  proof (elim disjE conjE)
    assume "quiet w w'" then show ?thesis by (rule quiet_logged)
  next
    assume c: "fs w' = (fs w)\<lparr>names := (names (fs w))(q := None)\<rparr>" "hist w' = hist w @ [fs w']"
    with q have "visible (fs w') p = visible (fs w) p" by (intro visible_same) simp_all
    with assms(3) have "shown p V (fs w')" by (simp add: shown_def)
    with c show ?thesis by (auto intro: logged_one)
  qed
qed

text \<open>
  The whole \<open>try\<close> statement: the lock is taken first; from the state it leaves, every
  state shows at \<open>p\<close> what that state shows, or the content.
\<close>

lemma save_attempt_atomic:
  assumes fr: "fresh_for p w" and run: "save_attempt t p content mode w = Some (r, w')"
  shows "\<exists>r1 w1. aquire_lock t p True w = Some (r1, w1)
      \<and> not_yet p (visible (fs w) p) (fs w1)
      \<and> logged (not_yet p (visible (fs w) p)) w w1
      \<and> logged (shown p (\<lambda>v. v = visible (fs w1) p \<or> v = Some content)) w1 w'
      \<and> (r = Inr () \<longrightarrow> visible (fs w') p = Some content)"
proof -
  let ?prior = "visible (fs w) p"
  from fr have u: "unrenamed p ?prior w" by (simp add: unrenamed_def not_yet_def)
  note lk = aquire_lock_phase [of p ?prior t True, unfolded keeps_def under_def, rule_format]
  have mono: "logged (shown p (\<lambda>v. v = x)) wa wb
      \<Longrightarrow> logged (shown p (\<lambda>v. v = x \<or> v = Some content)) wa wb" for x wa wb
    by (erule logged_mono [rotated]) (simp add: shown_def)
  show ?thesis
    using run
  proof (cases rule: save_attempt_cases)
    case (lock e w1)
    from lk [OF lock(1) u] have "unrenamed p ?prior w1" "logged (not_yet p ?prior) w w1"
      by simp_all
    moreover from lock(2) have "w' = w1" by (rule save_except_None)
    moreover from lock(2) have "r \<noteq> Inr ()" by (auto dest: save_except_raises)
    ultimately show ?thesis using lock(1) by (auto simp: unrenamed_def logged_refl)
  next
    case (tmp w1 e w2)
    let ?V = "\<lambda>v. v = visible (fs w1) p"
    from lk [OF tmp(1) u] have u1: "unrenamed p ?prior w1" and l1: "logged (not_yet p ?prior) w w1"
      by simp_all
    from NamedTemporaryFile_Inl [OF tmp(2)] have "logged (shown p ?V) w1 w2"
      by (rule quiet_logged)
    moreover from tmp(3) have "w' = w2" by (rule save_except_None)
    moreover from tmp(3) have "r \<noteq> Inr ()" by (auto dest: save_except_raises)
    ultimately show ?thesis using tmp(1) u1 l1 by (auto simp: unrenamed_def intro: mono)
  next
    case (fill w1 tmp w2 e w3)
    let ?V = "\<lambda>v. v = visible (fs w1) p"
    from lk [OF fill(1) u] have u1: "unrenamed p ?prior w1" and l1: "logged (not_yet p ?prior) w w1"
      by simp_all
    from u1 have fr1: "fresh_for p w1" by (simp add: unrenamed_def)
    have v1: "shown p ?V (fs w1)" by (simp add: shown_def)
    note t = tmp_filling [OF fill(2) fr1 v1]
    from with_tmp_phase [of p ?V tmp content mode, unfolded keeps_def under_def, rule_format,
        OF fill(3) t(1)]
    have f3: "filling p ?V tmp w3" and l3: "logged (shown p ?V) w2 w3" by simp_all
    from f3 have "logged (shown p ?V) w3 w'"
      by (intro save_except_shown [OF fill(4)]) (auto simp: filling_def)
    with t(2) l3 have "logged (shown p ?V) w1 w'" by (blast intro: logged_trans)
    moreover from fill(4) have "r \<noteq> Inr ()" by (auto dest: save_except_raises)
    ultimately show ?thesis using fill(1) u1 l1 by (auto simp: unrenamed_def intro: mono)
  next
    case (rename w1 tmp w2 w3 e w4)
    let ?V = "\<lambda>v. v = visible (fs w1) p"
    from lk [OF rename(1) u] have u1: "unrenamed p ?prior w1"
      and l1: "logged (not_yet p ?prior) w w1"
      by simp_all
    from u1 have fr1: "fresh_for p w1" by (simp add: unrenamed_def)
    have v1: "shown p ?V (fs w1)" by (simp add: shown_def)
    note t = tmp_filling [OF rename(2) fr1 v1]
    from with_tmp_phase [of p ?V tmp content mode, unfolded keeps_def under_def, rule_format,
        OF rename(3) t(1)]
    have f3: "filling p ?V tmp w3" and l3: "logged (shown p ?V) w2 w3" by simp_all
    from os_rename_cases [OF rename(4)] have q4: "quiet w3 w4" by auto
    with f3 have f4: "filling p ?V tmp w4" by (simp add: quiet_def filling_def)
    then have "logged (shown p ?V) w4 w'"
      by (intro save_except_shown [OF rename(5)]) (auto simp: filling_def)
    with t(2) l3 quiet_logged [OF q4, of "shown p ?V"] have "logged (shown p ?V) w1 w'"
      by (blast intro: logged_trans)
    moreover from rename(5) have "r \<noteq> Inr ()" by (auto dest: save_except_raises)
    ultimately show ?thesis using rename(1) u1 l1 by (auto simp: unrenamed_def intro: mono)
  next
    case (renamed w1 tmp w2 w3)
    let ?V = "\<lambda>v. v = visible (fs w1) p"
    let ?W = "\<lambda>v. v = visible (fs w1) p \<or> v = Some content"
    from lk [OF renamed(1) u] have u1: "unrenamed p ?prior w1"
      and l1: "logged (not_yet p ?prior) w w1"
      by simp_all
    from u1 have fr1: "fresh_for p w1" by (simp add: unrenamed_def)
    have v1: "shown p ?V (fs w1)" by (simp add: shown_def)
    note t = tmp_filling [OF renamed(2) fr1 v1]
    from with_tmp_phase [of p ?V tmp content mode, unfolded keeps_def under_def, rule_format,
        OF renamed(3) t(1)]
    have f3: "filling p ?V tmp w3" and l3: "logged (shown p ?V) w2 w3" by simp_all
    from with_tmp_Inr [OF renamed(3)] have d: "data (fs w3) (tmp_ino tmp) = content" .
    from os_rename_cases [OF renamed(4)] f3
    have c: "fs w' = (fs w3)\<lparr>names := ((names (fs w3))(tmp_name tmp := None))(p \<mapsto> tmp_ino tmp)\<rparr>"
      "hist w' = hist w3 @ [fs w']"
      by (auto simp: filling_def)
    with d have v: "visible (fs w') p = Some content" by (simp add: visible_def)
    then have "shown p ?W (fs w')" by (simp add: shown_def)
    with c have "logged (shown p ?W) w3 w'" by (auto intro: logged_one)
    moreover from t(2) l3 have "logged (shown p ?V) w1 w3" by (blast intro: logged_trans)
    then have "logged (shown p ?W) w1 w3" by (rule mono)
    ultimately have "logged (shown p ?W) w1 w'" by (blast intro: logged_trans)
    with renamed(1) u1 l1 v show ?thesis by (auto simp: unrenamed_def)
  qed
qed


lemma save_except_names:
  assumes "save_except p (Some q) e w = Some (Inl (MKGeneralException m c), w')"
  shows "names (fs w') q = None" "names_kept {q} w w'"
  using save_except_Some [OF assms] by (auto simp: quiet_def names_kept_def)

lemma names_kept_via_tmp:
  assumes "names_kept {p} w w1" "q0 \<noteq> p" "names (fs w1) q0 = None" "names (fs w') q0 = None"
    "\<And>q. q \<noteq> q0 \<Longrightarrow> q \<noteq> p \<Longrightarrow> names (fs w') q = names (fs w1) q"
  shows "names_kept {p} w w'"
  unfolding names_kept_def
proof (intro allI impI)
  fix q assume "q \<notin> {p}"
  with assms show "names (fs w') q = names (fs w) q"
    by (cases "q = q0") (auto simp: names_kept_def)
qed

lemma save_attempt_names:
  assumes run: "save_attempt t p content mode w = Some (r, w')"
    and r: "r = Inr () \<or> (\<exists>m c. r = Inl (MKGeneralException m c))"
  shows "names_kept {p} w w'"
proof -
  note lk = aquire_lock_names [of p t True, unfolded keeps_def, rule_format]
  note wt = with_tmp_names [unfolded keeps_def, rule_format]
  show ?thesis
    using run
  proof (cases rule: save_attempt_cases)
    case (lock e w1)
    from lock(2) have "w' = w1" by (rule save_except_None)
    with lk [OF lock(1)] show ?thesis by simp
  next
    case (tmp w1 e w2)
    from tmp(3) have "w' = w2" by (rule save_except_None)
    with lk [OF tmp(1)] NamedTemporaryFile_Inl [OF tmp(2)] show ?thesis
      by (auto simp: names_kept_def quiet_def)
  next
    case (fill w1 tmp w2 e w3)
    note f = tmp_facts [OF fill(2)]
    from fill(4) r obtain m c where
      h: "save_except p (Some (tmp_name tmp)) e w3 = Some (Inl (MKGeneralException m c), w')"
      by (auto dest: save_except_raises)
    show ?thesis
    proof (rule names_kept_via_tmp [OF lk [OF fill(1)] f(1) f(2)])
      show "names (fs w') (tmp_name tmp) = None" by (rule save_except_names(1) [OF h])
      fix q assume "q \<noteq> tmp_name tmp" "q \<noteq> p"
      with f(3) wt [OF fill(3)] save_except_names(2) [OF h]
      show "names (fs w') q = names (fs w1) q" by (simp add: names_kept_def)
    qed
  next
    case (rename w1 tmp w2 w3 e w4)
    note f = tmp_facts [OF rename(2)]
    from rename(5) r obtain m c where
      h: "save_except p (Some (tmp_name tmp)) e w4 = Some (Inl (MKGeneralException m c), w')"
      by (auto dest: save_except_raises)
    from os_rename_cases [OF rename(4)] have q4: "fs w4 = fs w3" by (auto simp: quiet_def)
    show ?thesis
    proof (rule names_kept_via_tmp [OF lk [OF rename(1)] f(1) f(2)])
      show "names (fs w') (tmp_name tmp) = None" by (rule save_except_names(1) [OF h])
      fix q assume "q \<noteq> tmp_name tmp" "q \<noteq> p"
      with f(3) wt [OF rename(3)] save_except_names(2) [OF h] q4
      show "names (fs w') q = names (fs w1) q" by (simp add: names_kept_def)
    qed
  next
    case (renamed w1 tmp w2 w3)
    note f = tmp_facts [OF renamed(2)]
    from os_rename_cases [OF renamed(4)] obtain i where
      c: "fs w' = (fs w3)\<lparr>names := ((names (fs w3))(tmp_name tmp := None))(p \<mapsto> i)\<rparr>"
      by auto
    show ?thesis
    proof (rule names_kept_via_tmp [OF lk [OF renamed(1)] f(1) f(2)])
      from c f(1) show "names (fs w') (tmp_name tmp) = None" by simp
      fix q assume "q \<noteq> tmp_name tmp" "q \<noteq> p"
      with f(3) wt [OF renamed(3)] c
      show "names (fs w') q = names (fs w1) q" by (simp add: names_kept_def)
    qed
  qed
qed

section \<open>Saving is atomic\<close>

text \<open>
  C1. Take any run of \<open>_save_data_to_file(path, content, mode)\<close> that ends, whatever
  fails on the way, from a state where the inode counter lies beyond the file at \<open>path\<close>.
  The call first takes the lock; the steps on the files come after it: the temporary file
  is created, its mode is set, the content is written to it, and it is renamed to \<open>path\<close>
  (or, after a failure, unlinked). Every state the file system goes through in these
  steps shows at \<open>path\<close> either what \<open>path\<close> showed when they began, whole, or the whole
  new content: never a part of the content, and never an empty file put there by the
  rename. What \<open>path\<close> shows when the steps begin is what it showed before the call; only
  where there was no file, taking the lock may have created an empty one. So where
  \<open>path\<close> had a file with content \<open>b\<close>, every state of the whole call shows \<open>b\<close> or
  \<open>content\<close>. After a normal return \<open>path\<close> holds exactly \<open>content\<close>.
\<close>

theorem atomic_save:
  assumes "fresh_for p w" and "priv_save_data_to_file t p content mode w = Some (r, w')"
  shows "\<exists>r1 w1 ys xs. aquire_lock t p True w = Some (r1, w1)
           \<and> hist w1 = hist w @ ys \<and> hist w' = hist w1 @ xs \<and> fs w' = last (fs w1 # xs)
           \<and> list_all (\<lambda>s. visible s p = visible (fs w1) p \<or> visible s p = Some content) xs
           \<and> list_all (not_yet p (visible (fs w) p)) ys
           \<and> not_yet p (visible (fs w) p) (fs w1)
           \<and> (\<forall>b. visible (fs w) p = Some b \<longrightarrow>
                 list_all (\<lambda>s. visible s p = Some b \<or> visible s p = Some content) (ys @ xs))
           \<and> (r = Inr () \<longrightarrow> visible (fs w') p = Some content)"
proof -
  from assms(2) have "fin (save_attempt t p content mode) (release_lock t p) w = Some (r, w')"
    by (simp add: priv_save_data_to_file_def)
  from fin_SomeD [OF this] obtain r0 w0 r2 where
    a: "save_attempt t p content mode w = Some (r0, w0)" and
    c: "release_lock t p w0 = Some (r2, w')" and r: "r = Inr () \<Longrightarrow> r0 = Inr ()"
    by auto
  from c keeps_quiet_release_lock [of t p] have q: "quiet w0 w'" by (auto simp: keeps_def)
  let ?W = "\<lambda>v. v = visible (fs w1) p \<or> v = Some content"
  from save_attempt_atomic [OF assms(1) a] obtain r1 w1 where
    l: "aquire_lock t p True w = Some (r1, w1)"
    and n1: "not_yet p (visible (fs w) p) (fs w1)"
    and l1: "logged (not_yet p (visible (fs w) p)) w w1"
    and l2: "logged (shown p (\<lambda>v. v = visible (fs w1) p \<or> v = Some content)) w1 w0"
    and v: "r0 = Inr () \<longrightarrow> visible (fs w0) p = Some content"
    by blast
  from l2 quiet_logged [OF q]
  have "logged (shown p (\<lambda>v. v = visible (fs w1) p \<or> v = Some content)) w1 w'"
    by (rule logged_trans)
  then obtain xs where xs: "hist w' = hist w1 @ xs" "fs w' = last (fs w1 # xs)"
    "list_all (\<lambda>s. visible s p = visible (fs w1) p \<or> visible s p = Some content) xs"
    by (auto simp: logged_def shown_def [abs_def])
  from l1 obtain ys where ys: "hist w1 = hist w @ ys" "list_all (not_yet p (visible (fs w) p)) ys"
    by (auto simp: logged_def)
  have "list_all (\<lambda>s. visible s p = Some b \<or> visible s p = Some content) (ys @ xs)"
    if b: "visible (fs w) p = Some b" for b
  proof -
    from n1 b have "visible (fs w1) p = Some b" by (simp add: not_yet_def)
    with xs(3) ys(2) b show ?thesis by (auto simp: list_all_iff not_yet_def)
  qed
  moreover from v r q have "r = Inr () \<longrightarrow> visible (fs w') p = Some content"
    by (auto simp: quiet_def)
  ultimately show ?thesis using l xs ys n1 by blast
qed

theorem atomic_save_witness:
  "fresh_for demo_path demo_world \<and> visible (fs demo_world) demo_path = Some ''7''
   \<and> priv_save_data_to_file 1 demo_path ''abc'' 432 demo_world
       = Some (Inr (), snd (the (priv_save_data_to_file 1 demo_path ''abc'' 432 demo_world)))
   \<and> hist (snd (the (aquire_lock 1 demo_path True demo_world))) = []
   \<and> map (\<lambda>s. visible s demo_path)
        (hist (snd (the (priv_save_data_to_file 1 demo_path ''abc'' 432 demo_world))))
       = [Some ''7'', Some ''7'', Some ''7'', Some ''abc'']
   \<and> visible (fs (snd (the (priv_save_data_to_file 1 demo_path ''abc'' 432 demo_world))))
        demo_path = Some ''abc''
   \<and> fresh_for demo_path bare_world \<and> visible (fs bare_world) demo_path = None
   \<and> priv_save_data_to_file 1 demo_path ''abc'' 432 bare_world
       = Some (Inr (), snd (the (priv_save_data_to_file 1 demo_path ''abc'' 432 bare_world)))
   \<and> map (\<lambda>s. visible s demo_path) (hist (snd (the (aquire_lock 1 demo_path True bare_world))))
       = [Some []]
   \<and> map (\<lambda>s. visible s demo_path)
        (hist (snd (the (priv_save_data_to_file 1 demo_path ''abc'' 432 bare_world))))
       = [Some [], Some [], Some [], Some [], Some ''abc'']"
  using atomic_save [where p = demo_path and w = demo_world and t = 1 and content = "''abc''"
      and mode = 432 and r = "Inr ()"
      and w' = "snd (the (priv_save_data_to_file 1 demo_path ''abc'' 432 demo_world))"]
    atomic_save [where p = demo_path and w = bare_world and t = 1 and content = "''abc''"
      and mode = 432 and r = "Inr ()"
      and w' = "snd (the (priv_save_data_to_file 1 demo_path ''abc'' 432 bare_world))"]
  by (simp add: save_defs run_defs demo_world_def bare_world_def demo_path_def visible_def
      fresh_for_def not_yet_def)

section \<open>Saving: the temporary file after a failure\<close>

lemma save_try_tmp:
  assumes "save_try t p content mode w = Some (Inl e, Some q, w1)"
  shows "names (fs w) q = None" and "names (fs w1) q \<noteq> None"
proof -
  let ?ntf = "NamedTemporaryFile (parent p) (CHR ''.'' # name p @ ''.new'')"
  from assms obtain wa tmp wb where a: "aquire_lock t p True w = Some (Inr (), wa)"
    and n: "?ntf wa = Some (Inr tmp, wb)"
    and b: "bnd (with_tmp tmp content mode) (\<lambda>u. os_rename (tmp_name tmp) p) wb
              = Some (Inl e, w1)"
    and q: "q = tmp_name tmp"
    by (auto simp: save_try_def split: option.splits sum.splits prod.splits)
  note f = tmp_facts [OF n]
  from aquire_lock_names [of p t True, unfolded keeps_def, rule_format, OF a] f(1,2) q
  show "names (fs w) q = None" by (simp add: names_kept_def)
  note wt = with_tmp_names [unfolded keeps_def names_kept_def, rule_format]
  from bnd_SomeD [OF b] have "names (fs w1) = names (fs wb)"
  proof (elim disjE exE conjE)
    fix e' assume "with_tmp tmp content mode wb = Some (Inl e', w1)"
    from wt [OF this] show ?thesis by (simp add: fun_eq_iff)
  next
    fix x wc
    assume c: "with_tmp tmp content mode wb = Some (Inr x, wc)"
      and r: "os_rename (tmp_name tmp) p wc = Some (Inl e, w1)"
    from os_rename_cases [OF r] have "fs w1 = fs wc" by (auto simp: quiet_def)
    with wt [OF c] show ?thesis by (simp add: fun_eq_iff)
  qed
  with f(3) q show "names (fs w1) q \<noteq> None" by simp
qed

lemma save_except_unlinks:
  assumes "e \<noteq> MKTerminate" "e \<noteq> MKTimeout" "undisturbed w"
  shows "\<exists>w'. save_except p (Some q) e w
           = Some (Inl (MKGeneralException ''Cannot write configuration file'' (Some (p, e))), w')
         \<and> names (fs w') q = None \<and> (\<forall>q'. q' \<noteq> q \<longrightarrow> names (fs w') q' = names (fs w) q')
         \<and> (names (fs w) q = None \<longrightarrow> fs w' = fs w)"
  using assms
  by (cases "names (fs w) q"; cases "sched w")
     (auto simp: save_except_def undisturbed_def bnd_def catch_def ret_def raise_def
        os_unlink_def syscall_def set_fs_def)

lemma save_except_disturbed:
  assumes "e \<noteq> MKTerminate" "e \<noteq> MKTimeout" "\<not> undisturbed w"
  shows "\<exists>y w'. save_except p (Some q) e w = Some (Inl y, w') \<and> os_or_signal y \<and> fs w' = fs w"
  using assms
  by (auto simp: save_except_def undisturbed_def bnd_def catch_def ret_def raise_def
        os_unlink_def syscall_def sig_exn_def split: list.splits event.splits signal.splits)

lemma save_except_signal:
  "e = MKTerminate \<or> e = MKTimeout \<Longrightarrow> save_except p tp e w = Some (Inl e, w)"
  by (auto simp: save_except_def raise_def)

lemma finally_release:
  assumes "save_attempt t p content mode w = Some (r2, w2)"
  shows "\<exists>r w'. priv_save_data_to_file t p content mode w = Some (r, w') \<and> fs w' = fs w2
           \<and> ((release_lock t p w2 = Some (Inr (), w') \<and> r = r2)
                \<or> (\<exists>y. release_lock t p w2 = Some (Inl y, w') \<and> r = Inl y))"
proof -
  from release_lock_total [of t p w2] obtain r3 w3 where c: "release_lock t p w2 = Some (r3, w3)"
    by (cases "release_lock t p w2") auto
  show ?thesis
  proof (cases r3)
    case (Inl y)
    with c release_lock_Inl [of t p w2 y w3] assms show ?thesis
      by (simp add: priv_save_data_to_file_def fin_def)
  next
    case (Inr u)
    with c release_lock_Inr [of t p w2 u w3] assms show ?thesis
      by (simp add: priv_save_data_to_file_def fin_def)
  qed
qed

text \<open>
  C4, as the code has it. Let the \<open>try\<close> block of \<open>_save_data_to_file\<close> raise \<open>e\<close> after the
  temporary file was created, so with \<open>tmp_path\<close> set to its name \<open>q\<close>: a name that was
  free before the call and names a file now. The call ends, and after the \<open>try\<close> statement
  the \<open>finally\<close> clause changes no file. If \<open>e\<close> is neither MKTerminate nor MKTimeout, the
  handler calls \<open>os.unlink(q)\<close>: undisturbed, this removes the name and nothing else, and
  the failure goes on as MKGeneralException; if the unlink itself fails or is interrupted,
  its exception goes on and the file stays. If \<open>e\<close> is MKTerminate or MKTimeout, the
  handler re-raises it at once and the temporary file stays. A temporary file that is
  already gone is passed over. And however the call went: when it returns, or fails with
  MKGeneralException, no name but \<open>path\<close> is bound differently from before the call.
\<close>

theorem failed_save_removes_tmp:
  "(save_try t p content mode w = Some (Inl e, Some q, w1) \<longrightarrow>
      names (fs w) q = None \<and> names (fs w1) q \<noteq> None
      \<and> (\<exists>r2 w2 r w'. save_attempt t p content mode w = Some (r2, w2)
            \<and> priv_save_data_to_file t p content mode w = Some (r, w')
            \<and> fs w' = fs w2
            \<and> ((release_lock t p w2 = Some (Inr (), w') \<and> r = r2)
                 \<or> (\<exists>y. release_lock t p w2 = Some (Inl y, w') \<and> r = Inl y))
            \<and> (e \<noteq> MKTerminate \<and> e \<noteq> MKTimeout \<and> undisturbed w1 \<longrightarrow>
                 r2 = Inl (MKGeneralException ''Cannot write configuration file'' (Some (p, e)))
                 \<and> names (fs w') q = None
                 \<and> (\<forall>q'. q' \<noteq> q \<longrightarrow> names (fs w') q' = names (fs w1) q'))
            \<and> (e \<noteq> MKTerminate \<and> e \<noteq> MKTimeout \<and> \<not> undisturbed w1 \<longrightarrow>
                 (\<exists>y. r2 = Inl y \<and> os_or_signal y) \<and> fs w' = fs w1)
            \<and> (e = MKTerminate \<or> e = MKTimeout \<longrightarrow> r2 = Inl e \<and> w2 = w1 \<and> fs w' = fs w1)))
   \<and> (e0 \<noteq> MKTerminate \<and> e0 \<noteq> MKTimeout \<and> undisturbed w0 \<and> names (fs w0) q0 = None \<longrightarrow>
        (\<exists>w0'. save_except p (Some q0) e0 w0
            = Some (Inl (MKGeneralException ''Cannot write configuration file'' (Some (p, e0))),
                    w0')
          \<and> fs w0' = fs w0))
   \<and> (priv_save_data_to_file t p content mode wa = Some (ra, wa')
        \<and> (ra = Inr () \<or> (\<exists>m c. ra = Inl (MKGeneralException m c)))
        \<longrightarrow> (\<forall>q. q \<noteq> p \<longrightarrow> names (fs wa') q = names (fs wa) q))"
proof (intro conjI impI)
  assume st: "save_try t p content mode w = Some (Inl e, Some q, w1)"
  from save_try_tmp [OF st] show "names (fs w) q = None" "names (fs w1) q \<noteq> None" .
  from st have sa: "save_attempt t p content mode w = save_except p (Some q) e w1"
    by (simp add: save_attempt_def)
  have "\<exists>r2 w2. save_except p (Some q) e w1 = Some (r2, w2)
      \<and> (e \<noteq> MKTerminate \<and> e \<noteq> MKTimeout \<and> undisturbed w1 \<longrightarrow>
            r2 = Inl (MKGeneralException ''Cannot write configuration file'' (Some (p, e)))
            \<and> names (fs w2) q = None
            \<and> (\<forall>q'. q' \<noteq> q \<longrightarrow> names (fs w2) q' = names (fs w1) q'))
      \<and> (e \<noteq> MKTerminate \<and> e \<noteq> MKTimeout \<and> \<not> undisturbed w1 \<longrightarrow>
            (\<exists>y. r2 = Inl y \<and> os_or_signal y) \<and> fs w2 = fs w1)
      \<and> (e = MKTerminate \<or> e = MKTimeout \<longrightarrow> r2 = Inl e \<and> w2 = w1)"
  proof (cases "e = MKTerminate \<or> e = MKTimeout")
    case True
    with save_except_signal [OF True, of p "Some q" w1] show ?thesis by auto
  next
    case False
    show ?thesis
    proof (cases "undisturbed w1")
      case True
      with False save_except_unlinks [of e w1 p q] show ?thesis by auto
    next
      case d: False
      with False save_except_disturbed [of e w1 p q] show ?thesis by auto
    qed
  qed
  then obtain r2 w2 where h: "save_except p (Some q) e w1 = Some (r2, w2)"
    and u: "e \<noteq> MKTerminate \<and> e \<noteq> MKTimeout \<and> undisturbed w1 \<longrightarrow>
            r2 = Inl (MKGeneralException ''Cannot write configuration file'' (Some (p, e)))
            \<and> names (fs w2) q = None
            \<and> (\<forall>q'. q' \<noteq> q \<longrightarrow> names (fs w2) q' = names (fs w1) q')"
    and d: "e \<noteq> MKTerminate \<and> e \<noteq> MKTimeout \<and> \<not> undisturbed w1 \<longrightarrow>
            (\<exists>y. r2 = Inl y \<and> os_or_signal y) \<and> fs w2 = fs w1"
    and g: "e = MKTerminate \<or> e = MKTimeout \<longrightarrow> r2 = Inl e \<and> w2 = w1"
    by blast
  from h sa have a: "save_attempt t p content mode w = Some (r2, w2)" by simp
  from finally_release [OF a] obtain r w' where
    f: "priv_save_data_to_file t p content mode w = Some (r, w')" "fs w' = fs w2"
      "(release_lock t p w2 = Some (Inr (), w') \<and> r = r2)
       \<or> (\<exists>y. release_lock t p w2 = Some (Inl y, w') \<and> r = Inl y)"
    by blast
  show "\<exists>r2 w2 r w'. save_attempt t p content mode w = Some (r2, w2)
            \<and> priv_save_data_to_file t p content mode w = Some (r, w')
            \<and> fs w' = fs w2
            \<and> ((release_lock t p w2 = Some (Inr (), w') \<and> r = r2)
                 \<or> (\<exists>y. release_lock t p w2 = Some (Inl y, w') \<and> r = Inl y))
            \<and> (e \<noteq> MKTerminate \<and> e \<noteq> MKTimeout \<and> undisturbed w1 \<longrightarrow>
                 r2 = Inl (MKGeneralException ''Cannot write configuration file'' (Some (p, e)))
                 \<and> names (fs w') q = None
                 \<and> (\<forall>q'. q' \<noteq> q \<longrightarrow> names (fs w') q' = names (fs w1) q'))
            \<and> (e \<noteq> MKTerminate \<and> e \<noteq> MKTimeout \<and> \<not> undisturbed w1 \<longrightarrow>
                 (\<exists>y. r2 = Inl y \<and> os_or_signal y) \<and> fs w' = fs w1)
            \<and> (e = MKTerminate \<or> e = MKTimeout \<longrightarrow> r2 = Inl e \<and> w2 = w1 \<and> fs w' = fs w1)"
    apply (rule exI [of _ r2], rule exI [of _ w2], rule exI [of _ r], rule exI [of _ w'])
    using a f u d g by simp
next
  assume "e0 \<noteq> MKTerminate \<and> e0 \<noteq> MKTimeout \<and> undisturbed w0 \<and> names (fs w0) q0 = None"
  with save_except_unlinks [of e0 w0 p q0]
  show "\<exists>w0'. save_except p (Some q0) e0 w0
            = Some (Inl (MKGeneralException ''Cannot write configuration file'' (Some (p, e0))),
                    w0')
          \<and> fs w0' = fs w0"
    by auto
next
  assume a: "priv_save_data_to_file t p content mode wa = Some (ra, wa')
      \<and> (ra = Inr () \<or> (\<exists>m c. ra = Inl (MKGeneralException m c)))"
  then have "fin (save_attempt t p content mode) (release_lock t p) wa = Some (ra, wa')"
    by (simp add: priv_save_data_to_file_def)
  from fin_SomeD [OF this] show "\<forall>q. q \<noteq> p \<longrightarrow> names (fs wa') q = names (fs wa) q"
  proof (elim disjE exE conjE)
    fix r1 w1 e1
    assume "release_lock t p w1 = Some (Inl e1, wa')" "ra = Inl e1"
    with a release_lock_Inl [of t p w1 e1 wa'] show ?thesis by auto
  next
    fix w1
    assume s: "save_attempt t p content mode wa = Some (ra, w1)"
      and c: "release_lock t p w1 = Some (Inr (), wa')"
    from a save_attempt_names [OF s] have "names_kept {p} wa w1" by simp
    with release_lock_Inr [OF c] show ?thesis by (simp add: names_kept_def)
  qed
qed

text \<open>
  C4 as the specification words it fails for a timeout: MKTimeout raised at \<open>tmp.write\<close> propagates
  and the temporary file is still there.
\<close>

theorem failed_save_counterexample:
  "fst (the (priv_save_data_to_file 1 demo_path ''abc'' 432
        (demo_world\<lparr>sched := [Proceed, Proceed, Proceed, Proceed, Proceed, Proceed, Proceed,
           Proceed, Deliver SigTimeout]\<rparr>))) = Inl MKTimeout
   \<and> names (fs demo_world) (Path ''/omd/etc'' ''.x.mk.newk3x9q0ab'') = None
   \<and> names (fs (snd (the (priv_save_data_to_file 1 demo_path ''abc'' 432
        (demo_world\<lparr>sched := [Proceed, Proceed, Proceed, Proceed, Proceed, Proceed, Proceed,
           Proceed, Deliver SigTimeout]\<rparr>))))) (Path ''/omd/etc'' ''.x.mk.newk3x9q0ab'') = Some 1"
  by (simp add: save_defs run_defs demo_world_def demo_path_def)

theorem failed_save_removes_tmp_witness:
  "save_try 1 demo_path ''abc'' 432
        (demo_world\<lparr>sched := [Proceed, Proceed, Proceed, Proceed, Proceed, Proceed, Proceed,
           Proceed, Fail 28 2]\<rparr>)
     = Some (Inl (OSError (EOTHER 28)), Some (Path ''/omd/etc'' ''.x.mk.newk3x9q0ab''),
             snd (snd (the (save_try 1 demo_path ''abc'' 432
        (demo_world\<lparr>sched := [Proceed, Proceed, Proceed, Proceed, Proceed, Proceed, Proceed,
           Proceed, Fail 28 2]\<rparr>)))))
   \<and> undisturbed (snd (snd (the (save_try 1 demo_path ''abc'' 432
        (demo_world\<lparr>sched := [Proceed, Proceed, Proceed, Proceed, Proceed, Proceed, Proceed,
           Proceed, Fail 28 2]\<rparr>)))))
   \<and> visible (fs (snd (snd (the (save_try 1 demo_path ''abc'' 432
        (demo_world\<lparr>sched := [Proceed, Proceed, Proceed, Proceed, Proceed, Proceed, Proceed,
           Proceed, Fail 28 2]\<rparr>)))))) (Path ''/omd/etc'' ''.x.mk.newk3x9q0ab'') = Some ''ab''
   \<and> priv_save_data_to_file 1 demo_path ''abc'' 432
        (demo_world\<lparr>sched := [Proceed, Proceed, Proceed, Proceed, Proceed, Proceed, Proceed,
           Proceed, Fail 28 2]\<rparr>)
     = Some (Inl (MKGeneralException ''Cannot write configuration file''
                    (Some (demo_path, OSError (EOTHER 28)))),
             snd (the (priv_save_data_to_file 1 demo_path ''abc'' 432
        (demo_world\<lparr>sched := [Proceed, Proceed, Proceed, Proceed, Proceed, Proceed, Proceed,
           Proceed, Fail 28 2]\<rparr>))))
   \<and> names (fs (snd (the (priv_save_data_to_file 1 demo_path ''abc'' 432
        (demo_world\<lparr>sched := [Proceed, Proceed, Proceed, Proceed, Proceed, Proceed, Proceed,
           Proceed, Fail 28 2]\<rparr>))))) (Path ''/omd/etc'' ''.x.mk.newk3x9q0ab'') = None
   \<and> visible (fs (snd (the (priv_save_data_to_file 1 demo_path ''abc'' 432
        (demo_world\<lparr>sched := [Proceed, Proceed, Proceed, Proceed, Proceed, Proceed, Proceed,
           Proceed, Fail 28 2]\<rparr>))))) demo_path = Some ''7''
   \<and> undisturbed demo_world \<and> names (fs demo_world) (Path ''/omd/etc'' ''gone'') = None
   \<and> save_except demo_path (Some (Path ''/omd/etc'' ''gone'')) (OSError (EOTHER 28)) demo_world
       = Some (Inl (MKGeneralException ''Cannot write configuration file''
                      (Some (demo_path, OSError (EOTHER 28)))), demo_world)
   \<and> priv_save_data_to_file 1 demo_path ''abc'' 432 demo_world
       = Some (Inr (), snd (the (priv_save_data_to_file 1 demo_path ''abc'' 432 demo_world)))
   \<and> names (fs (snd (the (priv_save_data_to_file 1 demo_path ''abc'' 432 demo_world))))
        (Path ''/omd/etc'' ''.x.mk.newk3x9q0ab'') = None"
  using failed_save_removes_tmp [where t = 1 and p = demo_path and content = "''abc''"
      and mode = 432 and e = "OSError (EOTHER 28)"
      and q = "Path ''/omd/etc'' ''.x.mk.newk3x9q0ab''"
      and w = "demo_world\<lparr>sched := [Proceed, Proceed, Proceed, Proceed, Proceed, Proceed,
           Proceed, Proceed, Fail 28 2]\<rparr>"
      and ?w1.0 = "snd (snd (the (save_try 1 demo_path ''abc'' 432
        (demo_world\<lparr>sched := [Proceed, Proceed, Proceed, Proceed, Proceed, Proceed, Proceed,
           Proceed, Fail 28 2]\<rparr>))))"
      and ?e0.0 = "OSError (EOTHER 28)" and ?w0.0 = demo_world
      and ?q0.0 = "Path ''/omd/etc'' ''gone''"
      and wa = demo_world and ra = "Inr ()"
      and wa' = "snd (the (priv_save_data_to_file 1 demo_path ''abc'' 432 demo_world))"]
  by (simp add: save_defs run_defs demo_world_def demo_path_def visible_def undisturbed_def)

section \<open>Saving an object and loading it again\<close>

lemma fresh_name_cong:
  "(\<And>s. ns' (Path d (pre @ s)) = ns (Path d (pre @ s))) \<Longrightarrow>
     fresh_name ns' d pre ss = fresh_name ns d pre ss"
  by (induction ss) auto

lemma tmp_path_differs: "Path d ((CHR ''.'' # name p @ ''.new'') @ s) \<noteq> p"
  by (rule tmp_name_differs [of _ _ s]) simp

lemma release_lock_calm_any:
  assumes "sched w = []"
  shows "\<exists>w'. release_lock t p w = Some (Inr (), w') \<and> sched w' = [] \<and> fs w' = fs w"
  using assms
  by (auto simp: release_lock_def have_lock_def priv_has_lock_def priv_get_lock_def bnd_def
      catch_def ret_def raise_def os_close_def syscall_def priv_del_lock_def
      split: option.splits)

lemma save_attempt_calm:
  assumes calm: "sched w = []" and lk: "have_lock t p w \<or> free_to_lock p w"
    and av: "tmp_available p w"
  shows "\<exists>w'. save_attempt t p content mode w = Some (Inr (), w') \<and> sched w' = []"
proof -
  let ?pre = "CHR ''.'' # name p @ ''.new''"
  have "\<exists>w1. aquire_lock t p True w = Some (Inr (), w1) \<and> sched w1 = []
          \<and> (\<forall>q. q \<noteq> p \<longrightarrow> names (fs w1) q = names (fs w) q) \<and> suffixes w1 = suffixes w"
  proof (cases "have_lock t p w")
    case True
    with calm show ?thesis by (simp add: aquire_lock_reentrant)
  next
    case False
    with lk have "free_to_lock p w" by simp
    from aquire_lock_calm [OF calm False this, of True] show ?thesis by blast
  qed
  then obtain w1 where a: "aquire_lock t p True w = Some (Inr (), w1)" and c1: "sched w1 = []"
    and n1: "\<And>q. q \<noteq> p \<Longrightarrow> names (fs w1) q = names (fs w) q" and s1: "suffixes w1 = suffixes w"
    by blast
  have "fresh_name (names (fs w1)) (parent p) ?pre (suffixes w1)
        = fresh_name (names (fs w)) (parent p) ?pre (suffixes w)"
    unfolding s1 by (rule fresh_name_cong) (rule n1, rule tmp_path_differs)
  with av obtain q ss where
    fn: "fresh_name (names (fs w1)) (parent p) ?pre (suffixes w1) = Some (q, ss)"
    by (auto simp: tmp_available_def)
  from fresh_nameD [OF fn] have "q \<noteq> p" by (auto dest: tmp_name_differs)
  with a c1 fn show ?thesis
    by (simp add: save_attempt_def save_try_def with_tmp_def bnd_def fin_def ret_def
        NamedTemporaryFile_def os_chmod_def tmp_write_def tmp_close_def os_rename_def
        syscall_def create_file_def set_fs_def)
qed


lemma priv_save_calm:
  assumes calm: "sched w = []" and lk: "have_lock t p w \<or> free_to_lock p w"
    and av: "tmp_available p w" and fr: "fresh_for p w"
  shows "\<exists>w'. priv_save_data_to_file t p content mode w = Some (Inr (), w') \<and> sched w' = []
           \<and> visible (fs w') p = Some content"
proof -
  from save_attempt_calm [OF calm lk av, of content mode] obtain w1 where
    a: "save_attempt t p content mode w = Some (Inr (), w1)" and c1: "sched w1 = []"
    by blast
  from save_attempt_atomic [OF fr a] have v: "visible (fs w1) p = Some content" by auto
  from release_lock_calm_any [OF c1, of t p] obtain w' where
    "release_lock t p w1 = Some (Inr (), w')" "sched w' = []" "fs w' = fs w1"
    by blast
  with a v show ?thesis
    by (simp add: priv_save_data_to_file_def fin_def)
qed

text \<open>
  C7, as the code has it. Let \<open>s\<close> be the rendering of \<open>v\<close>: \<open>repr(v)\<close> for
  \<open>pretty=False\<close>; \<open>pprint.pformat(v)\<close> for \<open>pretty=True\<close>, or \<open>repr(v)\<close> where
  \<open>pformat\<close> raises UnicodeDecodeError. Let \<open>s\<close> with the newline that
  \<open>save_object_to_file\<close> appends survive UTF-8 encoding and decoding. Where nothing
  disturbs, the lock is free or the thread's own and a name for the temporary file is to
  be had, \<open>save_object_to_file(path, v, pretty)\<close> returns and leaves exactly the encoded
  text at \<open>path\<close>, and \<open>load_object_from_file(path, default)\<close> after it ends with what
  \<open>ast.literal_eval\<close> makes of that text, whatever the default. So the value comes
  back exactly where \<open>ast.literal_eval\<close> reads \<open>v\<close> from its rendering.
\<close>

theorem object_round_trip:
  assumes "sched w = []" "have_lock t p w \<or> free_to_lock p w" "tmp_available p w"
    "fresh_for p w"
    and "if pretty
         then py_pformat L v = Inr s
              \<or> (py_pformat L v = Inl UnicodeDecodeError \<and> py_repr L v = Inr s)
         else py_repr L v = Inr s"
    and "utf8_encode L (s @ [10]) = Inr b" and "utf8_decode L b = Inr (s @ [10])"
  shows "\<exists>w1. save_object_to_file L t p v pretty w = Some (Inr (), w1)
           \<and> visible (fs w1) p = Some b
           \<and> load_object_from_file L t p dflt False w1 = Some (py_literal_eval L (s @ [10]), w1)
           \<and> (load_object_from_file L t p dflt False w1 = Some (Inr v, w1)
                \<longleftrightarrow> py_literal_eval L (s @ [10]) = Inr v)"
proof -
  from assms(5) have f: "format_data L v pretty = Inr s"
    by (auto simp: format_data_def split: if_splits)
  note e = assms(6) and d = assms(7)
  from priv_save_calm [OF assms(1-4), of b 432] obtain w1 where
    sv: "priv_save_data_to_file t p b 432 w = Some (Inr (), w1)" and c1: "sched w1 = []"
    and v1: "visible (fs w1) p = Some b"
    by blast
  from f e sv have "save_object_to_file L t p v pretty w = Some (Inr (), w1)"
    by (simp add: save_object_to_file_def save_file_def ensure_binary_def bnd_def lift_def)
  moreover from c1 v1 have "priv_load_bytes_from_file t p False w1 = Some (Inr b, w1)"
    by (auto simp: priv_load_bytes_from_file_def when_lock_def bnd_def ret_def catch_def
        read_bytes_def syscall_def visible_def split: option.splits)
  with d have "load_object_from_file L t p dflt False w1
      = Some (py_literal_eval L (s @ [10]), w1)"
    by (simp add: load_object_from_file_def bnd_def lift_def)
  ultimately show ?thesis using v1 by auto
qed

text \<open>
  C7 as the specification words it fails for the float \<open>1e999\<close>, a value built from a Python
  literal: saving it succeeds and leaves \<open>inf\<close> and a newline in the file, and loading
  the file raises ValueError, for both renderings.
\<close>

theorem object_round_trip_counterexample:
  "fst (the (save_object_to_file float_lib 1 demo_path PyFloatInf False demo_world)) = Inr ()
   \<and> visible (fs (snd (the (save_object_to_file float_lib 1 demo_path PyFloatInf False
        demo_world)))) demo_path = Some (map char_of [105, 110, 102, 10 :: nat])
   \<and> fst (the (load_object_from_file float_lib 1 demo_path (PyInt 0) False
        (snd (the (save_object_to_file float_lib 1 demo_path PyFloatInf False demo_world)))))
       = Inl ValueError
   \<and> fst (the (save_object_to_file float_lib 1 demo_path PyFloatInf True demo_world)) = Inr ()
   \<and> fst (the (load_object_from_file float_lib 1 demo_path (PyInt 0) False
        (snd (the (save_object_to_file float_lib 1 demo_path PyFloatInf True demo_world)))))
       = Inl ValueError"
  by (simp add: save_object_to_file_def save_file_def ensure_binary_def format_data_def
      scalar_repr_def scalar_literal_eval_def demo_literal_eval_def
      ascii_encode_def ascii_decode_def float_lib_def load_defs
      save_defs run_defs demo_world_def demo_path_def visible_def)

theorem object_round_trip_witness:
  "sched demo_world = [] \<and> free_to_lock demo_path demo_world \<and> tmp_available demo_path demo_world
   \<and> fresh_for demo_path demo_world
   \<and> py_pformat demo_lib 42 = Inr [52, 50] \<and> py_repr demo_lib 42 = Inr [52, 50]
   \<and> utf8_encode demo_lib [52, 50, 10] = Inr (map char_of [52, 50, 10 :: nat])
   \<and> utf8_decode demo_lib (map char_of [52, 50, 10 :: nat]) = Inr [52, 50, 10]
   \<and> py_literal_eval demo_lib [52, 50, 10] = Inr 42
   \<and> fst (the (save_object_to_file demo_lib 1 demo_path 42 True demo_world)) = Inr ()
   \<and> visible (fs (snd (the (save_object_to_file demo_lib 1 demo_path 42 True demo_world))))
        demo_path = Some (map char_of [52, 50, 10 :: nat])
   \<and> fst (the (load_object_from_file demo_lib 1 demo_path 0 False
        (snd (the (save_object_to_file demo_lib 1 demo_path 42 True demo_world))))) = Inr 42
   \<and> fst (the (load_object_from_file demo_lib 1 demo_path 0 False
        (snd (the (save_object_to_file demo_lib 1 demo_path 42 False demo_world))))) = Inr 42"
  using object_round_trip [where w = demo_world and t = 1 and p = demo_path and L = demo_lib
      and v = 42 and pretty = True and dflt = 0 and s = "[52, 50]"
      and b = "map char_of [52, 50, 10 :: nat]"]
    object_round_trip [where w = demo_world and t = 1 and p = demo_path and L = demo_lib
      and v = 42 and pretty = False and dflt = 0 and s = "[52, 50]"
      and b = "map char_of [52, 50, 10 :: nat]"]
  by (simp add: save_object_to_file_def save_file_def ensure_binary_def format_data_def
      tmp_available_def free_to_lock_def fresh_for_def demo_literal_eval_def
      ascii_encode_def ascii_decode_def demo_lib_def load_defs
      save_defs run_defs demo_world_def demo_path_def visible_def)

end
